theory Spec2Isabelle
  imports Main "HOL-Library.Sublist" "HOL-Library.Multiset"
begin

section \<open>JavaScript values as the cookie codec sees them\<close>

text \<open>
  The module \<open>src/client.ts\<close> keeps its cookie jar as a JSON document in the
  Capacitor Preferences store. Everything it reads back from the store went through
  \<open>JSON.parse\<close>, so the values it handles are JSON values. Objects are association
  lists in property order (the order \<open>Object.entries\<close> and \<open>JSON.stringify\<close>
  enumerate). The result of a property read that finds nothing (\<open>undefined\<close>) is
  \<open>None\<close> of \<open>json option\<close>.

  JSON numbers are modelled by integers: the program never computes with a number it
  found in a jar, it only tests and prints it. A character stands for a code unit of a
  JavaScript string; the type \<open>char\<close> has the code units below 256, each of which is
  the code point of the same number.
\<close>

datatype json =
    JNull
  | JBool bool
  | JNum int
  | JStr string
  | JArr "json list"
  | JObj "(string \<times> json) list"

datatype error = RangeError | TypeError | SyntaxError

subsection \<open>Strings\<close>

text \<open>\<open>String.prototype.startsWith\<close>, \<open>endsWith\<close> and \<open>includes\<close>.\<close>

definition startsWith :: "string \<Rightarrow> string \<Rightarrow> bool" where
  "startsWith s p = prefix p s"

definition endsWith :: "string \<Rightarrow> string \<Rightarrow> bool" where
  "endsWith s p = suffix p s"

definition includes_str :: "string \<Rightarrow> string \<Rightarrow> bool" where
  "includes_str s p = sublist p s"

text \<open>\<open>Array.prototype.join\<close> on an array of strings.\<close>

fun join :: "string \<Rightarrow> string list \<Rightarrow> string" where
  "join sep [] = []"
| "join sep [x] = x"
| "join sep (x # y # ys) = x @ sep @ join sep (y # ys)"

text \<open>Decimal rendering of a natural number and of an integer (\<open>Number::toString\<close>
  on an integer below \<open>10^21\<close> in magnitude).\<close>

definition digit_char :: "nat \<Rightarrow> char" where
  "digit_char d = char_of (48 + d)"

function show_nat :: "nat \<Rightarrow> string" where
  "show_nat n = (if n < 10 then [digit_char n] else show_nat (n div 10) @ [digit_char (n mod 10)])"
  by pat_completeness auto
termination
  by (relation "measure id") auto

definition show_int :: "int \<Rightarrow> string" where
  "show_int i = (if i < 0 then CHR ''-'' # show_nat (nat (- i)) else show_nat (nat i))"

subsection \<open>Truthiness, property reads, conversion to string\<close>

text \<open>\<open>ToBoolean\<close>: what \<open>!x\<close>, \<open>x ? a : b\<close> and \<open>x || y\<close> test.\<close>

fun truthy :: "json option \<Rightarrow> bool" where
  "truthy None = False"
| "truthy (Some JNull) = False"
| "truthy (Some (JBool b)) = b"
| "truthy (Some (JNum n)) = (n \<noteq> 0)"
| "truthy (Some (JStr s)) = (s \<noteq> [])"
| "truthy (Some (JArr xs)) = True"
| "truthy (Some (JObj kvs)) = True"

text \<open>
  A property read \<open>v[k]\<close> or \<open>v.k\<close> on a value that is neither \<open>null\<close> nor
  \<open>undefined\<close>. The names this module reads are \<open>value\<close>, \<open>expires\<close> and cookie
  names ending in \<open>.session_token\<close> or \<open>.oauth_state\<close> or containing
  \<open>session_token\<close> or \<open>session_data\<close>: none of them is an index, \<open>length\<close> or a
  member of a built-in prototype, so only an object can hold them, as an own property.
\<close>

fun js_get :: "json \<Rightarrow> string \<Rightarrow> json option" where
  "js_get (JObj kvs) k = map_of kvs k"
| "js_get v k = None"

text \<open>Optional chaining \<open>x?.k\<close>: \<open>undefined\<close> when \<open>x\<close> is \<open>null\<close> or \<open>undefined\<close>.\<close>

fun opt_get :: "json option \<Rightarrow> string \<Rightarrow> json option" where
  "opt_get None k = None"
| "opt_get (Some JNull) k = None"
| "opt_get (Some v) k = js_get v k"

text \<open>\<open>ToString\<close>, as a template literal applies it. An array prints its elements
  separated by commas, with \<open>null\<close> printed as the empty string.\<close>

fun js_toString :: "json \<Rightarrow> string" where
  "js_toString JNull = ''null''"
| "js_toString (JBool b) = (if b then ''true'' else ''false'')"
| "js_toString (JNum n) = show_int n"
| "js_toString (JStr s) = s"
| "js_toString (JArr xs) = join '','' (map (\<lambda>x. if x = JNull then [] else js_toString x) xs)"
| "js_toString (JObj kvs) = ''[object Object]''"

definition template :: "json option \<Rightarrow> string" where
  "template x = (case x of None \<Rightarrow> ''undefined'' | Some v \<Rightarrow> js_toString v)"

subsection \<open>Objects: property order, assignment, spread\<close>

text \<open>
  An object lists its integer-index keys first, in ascending order, and then its other
  keys in the order of their creation. An integer index is the canonical decimal
  rendering of a number below \<open>2^32 - 1\<close>.
\<close>

definition is_digit :: "char \<Rightarrow> bool" where
  "is_digit c = (48 \<le> (of_char c :: nat) \<and> (of_char c :: nat) \<le> 57)"

definition read_nat :: "string \<Rightarrow> nat" where
  "read_nat s = foldl (\<lambda>n c. 10 * n + ((of_char c :: nat) - 48)) 0 s"

definition array_index :: "string \<Rightarrow> nat option" where
  "array_index s =
     (if s \<noteq> [] \<and> list_all is_digit s \<and> (s = ''0'' \<or> take 1 s \<noteq> ''0'') \<and> read_nat s < 4294967295
      then Some (read_nat s) else None)"

fun obj_insert :: "string \<Rightarrow> 'a \<Rightarrow> (string \<times> 'a) list \<Rightarrow> (string \<times> 'a) list" where
  "obj_insert k v [] = [(k, v)]"
| "obj_insert k v ((k', v') # kvs) =
     (case array_index k of
        None \<Rightarrow> (k', v') # obj_insert k v kvs
      | Some n \<Rightarrow>
          (case array_index k' of
             None \<Rightarrow> (k, v) # (k', v') # kvs
           | Some n' \<Rightarrow> if n < n' then (k, v) # (k', v') # kvs else (k', v') # obj_insert k v kvs))"

text \<open>Defining the own property \<open>k\<close> (\<open>CreateDataProperty\<close>): an existing key keeps
  its place and takes the new value, a new key is inserted in property order.\<close>

definition obj_set :: "string \<Rightarrow> 'a \<Rightarrow> (string \<times> 'a) list \<Rightarrow> (string \<times> 'a) list" where
  "obj_set k v kvs =
     (if map_of kvs k = None then obj_insert k v kvs
      else map (\<lambda>(k', v'). if k' = k then (k', v) else (k', v')) kvs)"

text \<open>
  The assignment \<open>obj[k] = v\<close> on an object created by \<open>{}\<close>, with \<open>v\<close> an object.
  For the key \<open>__proto__\<close> the assignment reaches the accessor that every plain object
  inherits: it replaces the prototype and defines no own property.
\<close>

definition obj_assign :: "string \<Rightarrow> 'a \<Rightarrow> (string \<times> 'a) list \<Rightarrow> (string \<times> 'a) list" where
  "obj_assign k v kvs = (if k = ''__proto__'' then kvs else obj_set k v kvs)"

text \<open>The own enumerable properties of a value: what \<open>Object.entries\<close> lists and what
  a spread \<open>{...v}\<close> copies. A string and an array have their indices; \<open>null\<close>, a
  number and a boolean have none.\<close>

fun own_entries :: "json \<Rightarrow> (string \<times> json) list" where
  "own_entries (JObj kvs) = kvs"
| "own_entries (JArr xs) = zip (map show_nat [0..<length xs]) xs"
| "own_entries (JStr s) = zip (map show_nat [0..<length s]) (map (\<lambda>c. JStr [c]) s)"
| "own_entries v = []"

text \<open>Copying a list of properties into an object, one after the other, and the
  object literal \<open>{...a, ...b}\<close>.\<close>

definition assign_all :: "(string \<times> 'a) list \<Rightarrow> (string \<times> 'a) list \<Rightarrow> (string \<times> 'a) list" where
  "assign_all obj kvs = foldl (\<lambda>acc kv. obj_set (fst kv) (snd kv) acc) obj kvs"

definition spread2 :: "json \<Rightarrow> json \<Rightarrow> (string \<times> json) list" where
  "spread2 a b = assign_all [] (own_entries a @ own_entries b)"

text \<open>\<open>Object.entries(v)\<close> and \<open>Object.keys(v)\<close>: a \<open>TypeError\<close> on \<open>null\<close>.\<close>

definition Object_entries :: "json \<Rightarrow> error + (string \<times> json) list" where
  "Object_entries v = (if v = JNull then Inl TypeError else Inr (own_entries v))"

definition Object_keys :: "json \<Rightarrow> error + string list" where
  "Object_keys v = (if v = JNull then Inl TypeError else Inr (map fst (own_entries v)))"

subsection \<open>Jar strings and the JSON built-ins\<close>

text \<open>
  A jar string is produced by \<open>JSON.stringify\<close> or is the literal \<open>'{}'\<close>, or comes
  from the store; the module tests whether it is empty and hands it to
  \<open>JSON.parse\<close>, and does nothing else with it. \<open>JSON.parse\<close> and
  \<open>JSON.stringify\<close> belong to the host. A jar string is therefore represented by
  what it is for them: the empty string, a non-empty string that \<open>JSON.parse\<close>
  rejects, or a JSON text, given by the value \<open>JSON.parse\<close> returns for it.
\<close>

datatype text_json = EmptyText | MalformedText | JsonText json

text \<open>\<open>JSON.parse\<close>; \<open>None\<close> stands for the \<open>SyntaxError\<close> it throws.\<close>

fun JSON_parse :: "text_json \<Rightarrow> json option" where
  "JSON_parse (JsonText v) = Some v"
| "JSON_parse EmptyText = None"
| "JSON_parse MalformedText = None"

definition JSON_stringify :: "json \<Rightarrow> text_json" where
  "JSON_stringify v = JsonText v"

definition text_truthy :: "text_json \<Rightarrow> bool" where
  "text_truthy s = (s \<noteq> EmptyText)"

subsection \<open>Dates\<close>

text \<open>
  A \<open>Date\<close> object holds a time value in milliseconds since the epoch, or is an
  invalid date. \<open>Date.now()\<close> is the parameter \<open>now\<close> of the functions that read the
  clock. \<open>Date.parse\<close>, \<open>Date.prototype.toISOString\<close> and
  \<open>Date.prototype.toString\<close> belong to the host and are parameters.
\<close>

datatype js_date = InvalidDate | Date int

definition time_clip :: "int \<Rightarrow> js_date" where
  "time_clip t = (if \<bar>t\<bar> \<le> 8640000000000000 then Date t else InvalidDate)"

text \<open>\<open>new Date(v)\<close> for a JSON value: a string is parsed, an array or object is
  converted to a string first, anything else is converted to a number.\<close>

fun new_Date :: "(string \<Rightarrow> js_date) \<Rightarrow> json \<Rightarrow> js_date" where
  "new_Date Date_parse (JStr s) = Date_parse s"
| "new_Date Date_parse (JNum n) = time_clip n"
| "new_Date Date_parse (JBool b) = time_clip (if b then 1 else 0)"
| "new_Date Date_parse JNull = time_clip 0"
| "new_Date Date_parse v = Date_parse (js_toString v)"

text \<open>\<open>d >= new Date()\<close>: false when \<open>d\<close> is invalid.\<close>

fun date_ge_now :: "js_date \<Rightarrow> int \<Rightarrow> bool" where
  "date_ge_now InvalidDate now = False"
| "date_ge_now (Date t) now = (now \<le> t)"

text \<open>
  \<open>new Date(String(d))\<close> for a \<open>Date\<close> object \<open>d\<close> prints the date with
  \<open>Date.prototype.toString\<close> and parses that string again. Both steps belong to the
  host, and the language leaves the format of the string and the reading of such a
  string to it: what comes back depends on the host and on the year of \<open>d\<close>. The
  composition is the parameter \<open>Date_of_String\<close> of the functions that use it, of this
  type.
\<close>

type_synonym date_reader = "js_date \<Rightarrow> js_date"

section \<open>The cookie codec\<close>

text \<open>
  \<open>parseSetCookieHeader\<close> is imported from \<open>better-auth/cookies\<close>; it is a parameter
  of the functions that call it. It returns a \<open>Map\<close> from cookie names to attributes,
  here the list of its entries in insertion order. Of the attributes the module reads
  \<open>value\<close>, \<open>max-age\<close> (a number, possibly \<open>NaN\<close>, or absent) and \<open>expires\<close> (a
  \<open>Date\<close>, or absent).
\<close>

datatype js_number = NaN | Num int

record CookieAttributes =
  attr_value :: string
  attr_max_age :: "js_number option"
  attr_expires :: "js_date option"

type_synonym cookie_parser = "string \<Rightarrow> (string \<times> CookieAttributes) list"

text \<open>The test \<open>maxAge ? ... : ...\<close> on a number or \<open>undefined\<close>.\<close>

fun number_truthy :: "js_number option \<Rightarrow> bool" where
  "number_truthy None = False"
| "number_truthy (Some NaN) = False"
| "number_truthy (Some (Num n)) = (n \<noteq> 0)"

text \<open>
  Lines 278 to 284 of \<open>getSetCookie\<close>:
  \<^verbatim>\<open>
  const expires = maxAge
    ? new Date(Date.now() + Number(maxAge) * 1000)
    : expiresAt ? new Date(String(expiresAt)) : null
  \<close>
\<close>

definition cookie_expiry :: "date_reader \<Rightarrow> int \<Rightarrow> CookieAttributes \<Rightarrow> js_date option" where
  "cookie_expiry Date_of_String now cookie =
     (if number_truthy (attr_max_age cookie) then
        (case attr_max_age cookie of
           Some (Num n) \<Rightarrow> Some (time_clip (now + n * 1000))
         | _ \<Rightarrow> None)
      else
        (case attr_expires cookie of
           Some expiresAt \<Rightarrow> Some (Date_of_String expiresAt)
         | None \<Rightarrow> None))"

text \<open>The stored entry \<open>{ value: cookie.value, expires: expires ? expires.toISOString() : null }\<close>.
  \<open>toISOString\<close> throws a \<open>RangeError\<close> on an invalid date.\<close>

definition stored_entry ::
  "date_reader \<Rightarrow> (int \<Rightarrow> string) \<Rightarrow> int \<Rightarrow> CookieAttributes \<Rightarrow> error + json" where
  "stored_entry Date_of_String toISOString now cookie =
     (case cookie_expiry Date_of_String now cookie of
        None \<Rightarrow> Inr (JObj [(''value'', JStr (attr_value cookie)), (''expires'', JNull)])
      | Some InvalidDate \<Rightarrow> Inl RangeError
      | Some (Date t) \<Rightarrow>
          Inr (JObj [(''value'', JStr (attr_value cookie)), (''expires'', JStr (toISOString t))]))"

text \<open>The loop \<open>parsed.forEach((cookie, key) => { toSetCookie[key] = ... })\<close>.\<close>

fun forEach_parsed ::
  "date_reader \<Rightarrow> (int \<Rightarrow> string) \<Rightarrow> int \<Rightarrow> (string \<times> CookieAttributes) list
     \<Rightarrow> (string \<times> json) list \<Rightarrow> error + (string \<times> json) list" where
  "forEach_parsed Date_of_String toISOString now [] toSetCookie = Inr toSetCookie"
| "forEach_parsed Date_of_String toISOString now ((key, cookie) # rest) toSetCookie =
     (case stored_entry Date_of_String toISOString now cookie of
        Inl e \<Rightarrow> Inl e
      | Inr entry \<Rightarrow>
          forEach_parsed Date_of_String toISOString now rest (obj_assign key entry toSetCookie))"

text \<open>Lines 292 to 303: the merge of the previous jar, when \<open>prevCookie\<close> is given
  and not empty and parses; \<open>prevCookie\<close> is \<open>None\<close> when the argument is
  \<open>undefined\<close>.
  \<^verbatim>\<open>
  if (prevCookie) {
    try { toSetCookie = { ...JSON.parse(prevCookie), ...toSetCookie } }
    catch { }
  }
  \<close>\<close>

definition merge_prev :: "text_json option \<Rightarrow> (string \<times> json) list \<Rightarrow> (string \<times> json) list" where
  "merge_prev prevCookie toSetCookie =
     (case prevCookie of
        None \<Rightarrow> toSetCookie
      | Some p \<Rightarrow>
          if text_truthy p then
            (case JSON_parse p of
               None \<Rightarrow> toSetCookie
             | Some prevCookieParsed \<Rightarrow> spread2 prevCookieParsed (JObj toSetCookie))
          else toSetCookie)"

text \<open>\<open>getSetCookie(header, prevCookie?)\<close>.\<close>

definition getSetCookie ::
  "cookie_parser \<Rightarrow> date_reader \<Rightarrow> (int \<Rightarrow> string) \<Rightarrow> int \<Rightarrow> string \<Rightarrow> text_json option
     \<Rightarrow> error + text_json" where
  "getSetCookie parseSetCookieHeader Date_of_String toISOString now header prevCookie =
     (case forEach_parsed Date_of_String toISOString now (parseSetCookieHeader header) [] of
        Inl e \<Rightarrow> Inl e
      | Inr toSetCookie \<Rightarrow> Inr (JSON_stringify (JObj (merge_prev prevCookie toSetCookie))))"

text \<open>The filter callback of \<open>getCookie\<close>,
  \<open>([, value]) => !value.expires || new Date(value.expires) >= new Date()\<close>.
  Reading \<open>value.expires\<close> throws a \<open>TypeError\<close> when \<open>value\<close> is \<open>null\<close>.\<close>

definition keep_entry :: "(string \<Rightarrow> js_date) \<Rightarrow> int \<Rightarrow> json \<Rightarrow> error + bool" where
  "keep_entry Date_parse now v =
     (if v = JNull then Inl TypeError
      else Inr (case js_get v ''expires'' of
                  None \<Rightarrow> True
                | Some e \<Rightarrow> \<not> truthy (Some e) \<or> date_ge_now (new_Date Date_parse e) now))"

fun filter_entries ::
  "(string \<Rightarrow> js_date) \<Rightarrow> int \<Rightarrow> (string \<times> json) list \<Rightarrow> error + (string \<times> json) list" where
  "filter_entries Date_parse now [] = Inr []"
| "filter_entries Date_parse now ((k, v) # rest) =
     (case keep_entry Date_parse now v of
        Inl e \<Rightarrow> Inl e
      | Inr b \<Rightarrow>
          (case filter_entries Date_parse now rest of
             Inl e \<Rightarrow> Inl e
           | Inr kept \<Rightarrow> Inr (if b then (k, v) # kept else kept)))"

text \<open>The map callback \<open>([key, value]) => `${key}=${value.value}`\<close>.\<close>

definition name_value :: "string \<times> json \<Rightarrow> string" where
  "name_value kv = fst kv @ ''='' @ template (js_get (snd kv) ''value'')"

text \<open>\<open>getCookie(cookie)\<close>: malformed JSON gives the empty string.\<close>

definition getCookie :: "(string \<Rightarrow> js_date) \<Rightarrow> int \<Rightarrow> text_json \<Rightarrow> error + string" where
  "getCookie Date_parse now cookie =
     (case JSON_parse cookie of
        None \<Rightarrow> Inr []
      | Some parsed \<Rightarrow>
          (case Object_entries parsed of
             Inl e \<Rightarrow> Inl e
           | Inr entries \<Rightarrow>
               (case filter_entries Date_parse now entries of
                  Inl e \<Rightarrow> Inl e
                | Inr validCookies \<Rightarrow> Inr (join ''; '' (map name_value validCookies)))))"

section \<open>Stored cookie records\<close>

text \<open>
  The interface \<open>StoredCookie\<close> (\<open>{ value: string, expires: string | null }\<close>) and
  the jar type \<open>Record<string, StoredCookie>\<close>, with the JSON values they are at run
  time. The fields are \<open>value\<close> and \<open>expires\<close> in the source.
\<close>

record StoredCookie =
  sc_value :: string
  sc_expires :: "string option"

type_synonym cookie_record = "(string \<times> StoredCookie) list"

definition stored_json :: "StoredCookie \<Rightarrow> json" where
  "stored_json c =
     JObj [(''value'', JStr (sc_value c)),
           (''expires'', (case sc_expires c of None \<Rightarrow> JNull | Some e \<Rightarrow> JStr e))]"

definition record_json :: "cookie_record \<Rightarrow> json" where
  "record_json jar = JObj (map (\<lambda>kc. (fst kc, stored_json (snd kc))) jar)"

text \<open>\<open>normalizeCookieName\<close>: \<open>name.replace(/:/g, '_')\<close>.\<close>

definition normalizeCookieName :: "string \<Rightarrow> string" where
  "normalizeCookieName name = map (\<lambda>c. if c = CHR '':'' then CHR ''_'' else c) name"

section \<open>The auth-cookie classifier\<close>

text \<open>
  Modelled from the spec: \<open>SECURE_COOKIE_PREFIX\<close> and \<open>stripSecureCookiePrefix\<close> are
  imported from \<open>better-auth/cookies\<close> and are not in the repository. The spec calls
  them a fixed marker prefix and stripping that prefix from a name if present; its
  examples name the prefix, \<open>__Secure-\<close>.
\<close>

definition SECURE_COOKIE_PREFIX :: string where
  "SECURE_COOKIE_PREFIX = ''__Secure-''"

definition stripSecureCookiePrefix :: "string \<Rightarrow> string" where
  "stripSecureCookiePrefix name =
     (if startsWith name SECURE_COOKIE_PREFIX then drop (length SECURE_COOKIE_PREFIX) name else name)"

text \<open>The option \<open>cookiePrefix?: string | string[]\<close>.\<close>

datatype cookie_prefix = Single string | Multiple "string list"

text \<open>\<open>Array.isArray(cookiePrefix) ? cookiePrefix : [cookiePrefix]\<close>.\<close>

fun prefixes_of :: "cookie_prefix \<Rightarrow> string list" where
  "prefixes_of (Single p) = [p]"
| "prefixes_of (Multiple ps) = ps"

definition cookieSuffixes :: "string list" where
  "cookieSuffixes = [''session_token'', ''session_data'']"

text \<open>The loop over \<open>cookieSuffixes\<close>, the loop over \<open>prefixes\<close> and the loop over
  \<open>cookies.keys()\<close> of \<open>hasBetterAuthCookies\<close>, each leaving with \<open>true\<close> at its
  first match.\<close>

fun match_suffixes :: "string \<Rightarrow> string list \<Rightarrow> bool" where
  "match_suffixes nameWithoutSecure [] = False"
| "match_suffixes nameWithoutSecure (sfx # rest) =
     (if endsWith nameWithoutSecure sfx then True else match_suffixes nameWithoutSecure rest)"

fun match_prefixes :: "string \<Rightarrow> string list \<Rightarrow> bool" where
  "match_prefixes nameWithoutSecure [] = False"
| "match_prefixes nameWithoutSecure (p # rest) =
     (if p \<noteq> [] then
        (if startsWith nameWithoutSecure p then True else match_prefixes nameWithoutSecure rest)
      else
        (if match_suffixes nameWithoutSecure cookieSuffixes then True
         else match_prefixes nameWithoutSecure rest))"

fun scan_names :: "string list \<Rightarrow> string list \<Rightarrow> bool" where
  "scan_names [] ps = False"
| "scan_names (name # rest) ps =
     (if match_prefixes (stripSecureCookiePrefix name) ps then True
      else scan_names rest ps)"

definition hasBetterAuthCookies :: "cookie_parser \<Rightarrow> string \<Rightarrow> cookie_prefix \<Rightarrow> bool" where
  "hasBetterAuthCookies parseSetCookieHeader setCookieHeader cookiePrefix =
     scan_names (map fst (parseSetCookieHeader setCookieHeader)) (prefixes_of cookiePrefix)"

section \<open>Change detection\<close>

text \<open>
  \<open>a !== b\<close> for two values read from two different results of \<open>JSON.parse\<close>:
  primitives are compared by value, and an object or array of one result is never the
  same object as one of the other.
\<close>

fun is_reference :: "json option \<Rightarrow> bool" where
  "is_reference (Some (JArr xs)) = True"
| "is_reference (Some (JObj kvs)) = True"
| "is_reference x = False"

definition strict_neq :: "json option \<Rightarrow> json option \<Rightarrow> bool" where
  "strict_neq a b = (is_reference a \<or> is_reference b \<or> a \<noteq> b)"

definition is_session_key :: "string \<Rightarrow> bool" where
  "is_session_key k = (includes_str k ''session_token'' \<or> includes_str k ''session_data'')"

text \<open>\<open>sessionKeys.add(key)\<close> on a \<open>Set\<close>, kept in insertion order.\<close>

definition set_add :: "'a \<Rightarrow> 'a list \<Rightarrow> 'a list" where
  "set_add k ks = (if k \<in> set ks then ks else ks @ [k])"

definition add_session_keys :: "string list \<Rightarrow> string list \<Rightarrow> string list" where
  "add_session_keys ks sessionKeys =
     foldl (\<lambda>acc k. if is_session_key k then set_add k acc else acc) sessionKeys ks"

text \<open>The loop \<open>for (const key of sessionKeys)\<close>.\<close>

fun any_changed :: "json \<Rightarrow> json \<Rightarrow> string list \<Rightarrow> bool" where
  "any_changed prev next [] = False"
| "any_changed prev next (k # ks) =
     (if strict_neq (opt_get (js_get prev k) ''value'') (opt_get (js_get next k) ''value'')
      then True else any_changed prev next ks)"

text \<open>\<open>hasSessionCookieChanged(prevCookie, newCookie)\<close>; \<open>prevCookie\<close> is \<open>None\<close> when it
  is \<open>null\<close>. Every exception inside the \<open>try\<close> (malformed JSON, \<open>Object.keys(null)\<close>)
  ends in \<open>return true\<close>.\<close>

definition hasSessionCookieChanged :: "text_json option \<Rightarrow> text_json \<Rightarrow> bool" where
  "hasSessionCookieChanged prevCookie newCookie =
     (case prevCookie of
        None \<Rightarrow> True
      | Some p \<Rightarrow>
          if \<not> text_truthy p then True
          else
            (case JSON_parse p of
               None \<Rightarrow> True
             | Some prev \<Rightarrow>
                 (case JSON_parse newCookie of
                    None \<Rightarrow> True
                  | Some next \<Rightarrow>
                      (case Object_keys prev of
                         Inl e \<Rightarrow> True
                       | Inr prevKeys \<Rightarrow>
                           (case Object_keys next of
                              Inl e \<Rightarrow> True
                            | Inr nextKeys \<Rightarrow>
                                any_changed prev next
                                  (add_session_keys nextKeys (add_session_keys prevKeys [])))))))"

section \<open>The store and the bearer token\<close>

text \<open>
  The Capacitor Preferences store maps a key to a string;
  \<open>(await Preferences.get({ key }))?.value\<close> is \<open>None\<close> when the key is not set. The
  values this module keeps there are jar strings. \<open>isNativePlatform()\<close> is the flag
  \<open>native\<close>.
\<close>

type_synonym preferences = "string \<Rightarrow> text_json option"

record GetCapacitorAuthTokenOptions =
  token_storagePrefix :: "string option"
  token_cookiePrefix :: "string option"

text \<open>\<open>opts?.field || 'better-auth'\<close> for an optional string field.\<close>

definition or_default :: "string option \<Rightarrow> string" where
  "or_default x = (case x of None \<Rightarrow> ''better-auth'' | Some s \<Rightarrow> if s = [] then ''better-auth'' else s)"

text \<open>Lines 203 to 208, shared by \<open>getCapacitorAuthToken\<close> and the \<open>init\<close> hook:
  \<^verbatim>\<open>
  const tokenKey = cookieData[`${SECURE_COOKIE_PREFIX}${cookiePrefix}.session_token`]
    ? `${SECURE_COOKIE_PREFIX}${cookiePrefix}.session_token`
    : `${cookiePrefix}.session_token`
  return cookieData[tokenKey]?.value || null
  \<close>
  Reading a property of \<open>null\<close> throws; both callers catch it and end with \<open>null\<close>,
  which is \<open>None\<close> here.\<close>

definition token_of :: "json \<Rightarrow> string \<Rightarrow> json option" where
  "token_of cookieData cookiePrefix =
     (if cookieData = JNull then None
      else
        (let tokenKey =
               (if truthy (js_get cookieData (SECURE_COOKIE_PREFIX @ cookiePrefix @ ''.session_token''))
                then SECURE_COOKIE_PREFIX @ cookiePrefix @ ''.session_token''
                else cookiePrefix @ ''.session_token'');
             v = opt_get (js_get cookieData tokenKey) ''value''
         in if truthy v then v else None))"

definition getCapacitorAuthToken ::
  "bool \<Rightarrow> preferences \<Rightarrow> GetCapacitorAuthTokenOptions option \<Rightarrow> json option" where
  "getCapacitorAuthToken native Preferences opts =
     (if \<not> native then None
      else
        (let storagePrefix = or_default (case opts of None \<Rightarrow> None | Some opt \<Rightarrow> token_storagePrefix opt);
             cookiePrefix = or_default (case opts of None \<Rightarrow> None | Some opt \<Rightarrow> token_cookiePrefix opt);
             cookieName = storagePrefix @ ''_cookie''
         in case Preferences (normalizeCookieName cookieName) of
              None \<Rightarrow> None
            | Some storedCookie \<Rightarrow>
                if \<not> text_truthy storedCookie then None
                else
                  (case JSON_parse storedCookie of
                     None \<Rightarrow> None
                   | Some cookieData \<Rightarrow> token_of cookieData cookiePrefix)))"

section \<open>The OAuth state and the proxy URL\<close>

text \<open>The inner loop of \<open>getOAuthStateValue\<close> over the two candidate names, and its
  outer loop over the prefixes: the first truthy \<open>parsed?.[name]?.value\<close> is returned.\<close>

fun first_candidate :: "json \<Rightarrow> string list \<Rightarrow> json option" where
  "first_candidate parsed [] = None"
| "first_candidate parsed (name # rest) =
     (if truthy (opt_get (js_get parsed name) ''value'')
      then opt_get (js_get parsed name) ''value''
      else first_candidate parsed rest)"

fun oauth_scan :: "json \<Rightarrow> string list \<Rightarrow> json option" where
  "oauth_scan parsed [] = None"
| "oauth_scan parsed (p # rest) =
     (case first_candidate parsed
             [SECURE_COOKIE_PREFIX @ p @ ''.oauth_state'', p @ ''.oauth_state''] of
        Some v \<Rightarrow> Some v
      | None \<Rightarrow> oauth_scan parsed rest)"

text \<open>\<open>getOAuthStateValue(cookieJson, cookiePrefix)\<close>; \<open>safeJSONParse\<close> turns a
  \<open>SyntaxError\<close> into \<open>null\<close>, and \<open>!parsed\<close> ends the function for every falsy
  value.\<close>

definition getOAuthStateValue :: "text_json option \<Rightarrow> cookie_prefix \<Rightarrow> json option" where
  "getOAuthStateValue cookieJson cookiePrefix =
     (case cookieJson of
        None \<Rightarrow> None
      | Some s \<Rightarrow>
          if \<not> text_truthy s then None
          else
            (case JSON_parse s of
               None \<Rightarrow> None
             | Some parsed \<Rightarrow>
                 if \<not> truthy (Some parsed) then None
                 else oauth_scan parsed (prefixes_of cookiePrefix)))"

text \<open>
  \<open>URLSearchParams.prototype.toString\<close> belongs to the host: the
  \<open>application/x-www-form-urlencoded\<close> serializer of the URL standard. The string
  is encoded in UTF-8: a code point below 128 is one byte, a code point from 128 to 255
  is the two bytes \<open>0xC0 + n div 64\<close> and \<open>0x80 + n mod 64\<close>. A space becomes \<open>+\<close>;
  letters, digits and \<open>*\<close>, \<open>-\<close>, \<open>.\<close>, \<open>_\<close> stay; every other byte becomes
  \<open>%\<close> and two upper-case hexadecimal digits.
\<close>

definition hex_digit :: "nat \<Rightarrow> char" where
  "hex_digit d = (if d < 10 then char_of (48 + d) else char_of (55 + d))"

definition form_unreserved :: "char \<Rightarrow> bool" where
  "form_unreserved c =
     (let n = (of_char c :: nat)
      in (48 \<le> n \<and> n \<le> 57) \<or> (65 \<le> n \<and> n \<le> 90) \<or> (97 \<le> n \<and> n \<le> 122)
         \<or> c = CHR ''*'' \<or> c = CHR ''-'' \<or> c = CHR ''.'' \<or> c = CHR ''_'')"

definition utf8_encode :: "char \<Rightarrow> nat list" where
  "utf8_encode c =
     (let n = (of_char c :: nat)
      in if n < 128 then [n] else [192 + n div 64, 128 + n mod 64])"

definition percent_encode :: "nat \<Rightarrow> string" where
  "percent_encode b = [CHR ''%'', hex_digit (b div 16), hex_digit (b mod 16)]"

definition form_encode_char :: "char \<Rightarrow> string" where
  "form_encode_char c =
     (if c = CHR '' '' then ''+''
      else if form_unreserved c then [c]
      else concat (map percent_encode (utf8_encode c)))"

definition form_encode :: "string \<Rightarrow> string" where
  "form_encode s = concat (map form_encode_char s)"

definition URLSearchParams_toString :: "(string \<times> string) list \<Rightarrow> string" where
  "URLSearchParams_toString params =
     join ''&'' (map (\<lambda>nv. form_encode (fst nv) @ ''='' @ form_encode (snd nv)) params)"

section \<open>The plugin and its fetch hooks\<close>

text \<open>
  \<open>capacitorClient(opts?)\<close> closes over its options; the hooks read and write the
  Preferences store, notify the client store, open the browser and register deep-link
  listeners. These effects are a state that each hook takes and returns. The hooks
  \<open>await\<close> each step in turn, so a hook is a sequence of steps on that state. The
  dynamic imports of the Capacitor modules are taken to succeed.
\<close>

record CapacitorClientOptions =
  opt_storagePrefix :: "string option"
  opt_cookiePrefix :: "cookie_prefix option"
  opt_scheme :: "string option"
  opt_disableCache :: "bool option"

text \<open>\<open>opts?.storagePrefix || 'better-auth'\<close> and \<open>opts?.cookiePrefix || 'better-auth'\<close>
  (an array is truthy, the empty string is not), \<open>opts?.scheme\<close> and
  \<open>opts?.disableCache\<close>.\<close>

definition client_storagePrefix :: "CapacitorClientOptions option \<Rightarrow> string" where
  "client_storagePrefix opts =
     or_default (case opts of None \<Rightarrow> None | Some x \<Rightarrow> opt_storagePrefix x)"

definition client_cookiePrefix :: "CapacitorClientOptions option \<Rightarrow> cookie_prefix" where
  "client_cookiePrefix opts =
     (case (case opts of None \<Rightarrow> None | Some x \<Rightarrow> opt_cookiePrefix x) of
        None \<Rightarrow> Single ''better-auth''
      | Some (Single s) \<Rightarrow> if s = [] then Single ''better-auth'' else Single s
      | Some (Multiple ps) \<Rightarrow> Multiple ps)"

definition client_scheme :: "CapacitorClientOptions option \<Rightarrow> string option" where
  "client_scheme opts = (case opts of None \<Rightarrow> None | Some x \<Rightarrow> opt_scheme x)"

definition client_disableCache :: "CapacitorClientOptions option \<Rightarrow> bool" where
  "client_disableCache opts =
     (case opts of None \<Rightarrow> False
      | Some x \<Rightarrow> (case opt_disableCache x of None \<Rightarrow> False | Some b \<Rightarrow> b))"

definition cookieName :: "CapacitorClientOptions option \<Rightarrow> string" where
  "cookieName opts = client_storagePrefix opts @ ''_cookie''"

definition localCacheName :: "CapacitorClientOptions option \<Rightarrow> string" where
  "localCacheName opts = client_storagePrefix opts @ ''_session_data''"

text \<open>\<open>Array.isArray(cookiePrefix) ? cookiePrefix[0] : cookiePrefix\<close>, inside a template
  literal: the first element of an empty array is \<open>undefined\<close>.\<close>

fun prefixStr :: "cookie_prefix \<Rightarrow> string" where
  "prefixStr (Single s) = s"
| "prefixStr (Multiple []) = ''undefined''"
| "prefixStr (Multiple (s # ss)) = s"

text \<open>A string test \<open>if (s)\<close> on \<open>string | null | undefined\<close>.\<close>

definition string_truthy :: "string option \<Rightarrow> bool" where
  "string_truthy x = (case x of None \<Rightarrow> False | Some s \<Rightarrow> s \<noteq> [])"

text \<open>The session atom of the client store, with the three fields the hook resets and
  its other properties; the client store with the signals it was notified of.\<close>

record session_atom =
  s_data :: json
  s_error :: json
  s_isPending :: bool
  s_other :: "(string \<times> json) list"

record client_store =
  notified :: "string list"
  session :: "session_atom option"

record world =
  prefs :: preferences
  store :: "client_store option"
  opened :: "string list"
  listeners :: "json option list"
  managersInitialized :: bool

text \<open>\<open>await Preferences.set({ key, value })\<close> and \<open>store?.notify(signal)\<close>.\<close>

definition prefs_set :: "string \<Rightarrow> text_json \<Rightarrow> world \<Rightarrow> world" where
  "prefs_set key v w = w\<lparr>prefs := (prefs w)(key \<mapsto> v)\<rparr>"

definition notify :: "string \<Rightarrow> world \<Rightarrow> world" where
  "notify signal w =
     (case store w of
        None \<Rightarrow> w
      | Some st \<Rightarrow> w\<lparr>store := Some (st\<lparr>notified := notified st @ [signal]\<rparr>)\<rparr>)"

text \<open>A hook returns, or throws with the effects it had until then.\<close>

datatype 'a outcome = Returned 'a | Threw error 'a

definition and_then :: "'a outcome \<Rightarrow> ('a \<Rightarrow> 'a outcome) \<Rightarrow> 'a outcome" where
  "and_then r f = (case r of Returned w \<Rightarrow> f w | Threw e w \<Rightarrow> Threw e w)"

text \<open>The state a hook leaves, and whether it returned.\<close>

fun outcome_state :: "'a outcome \<Rightarrow> 'a" where
  "outcome_state (Returned w) = w"
| "outcome_state (Threw e w) = w"

fun has_returned :: "'a outcome \<Rightarrow> bool" where
  "has_returned (Returned w) = True"
| "has_returned (Threw e w) = False"

text \<open>The host of a hook: the platform flag, the imported cookie parser,
  \<open>new Date(String(d))\<close>, \<open>toISOString\<close>, and \<open>JSON.parse\<close> on a request body
  given by its characters.\<close>

record host =
  h_native :: bool
  h_parseSetCookieHeader :: cookie_parser
  h_Date_of_String :: date_reader
  h_toISOString :: "int \<Rightarrow> string"
  h_JSON_parse :: "string \<Rightarrow> json option"

text \<open>The context of \<open>onSuccess\<close>: the two response headers it reads, the decoded
  response body \<open>context.data\<close> (\<open>null\<close> when there is none), and the request.\<close>

record success_context =
  ctx_set_auth_token :: "string option"
  ctx_set_cookie :: "string option"
  ctx_data :: json
  ctx_url :: string
  ctx_body :: "string option"
  ctx_baseURL :: "string option"

text \<open>
  Both header branches of \<open>onSuccess\<close> have the same shape (lines 506 to 525 and 534
  to 544): read the previous jar, merge, write the merged jar in either case, and notify
  \<open>$sessionSignal\<close> when the session cookies changed.
\<close>

definition merge_into_jar :: "host \<Rightarrow> int \<Rightarrow> string \<Rightarrow> string \<Rightarrow> world \<Rightarrow> world outcome" where
  "merge_into_jar H now key header w =
     (let prevCookie = prefs w key
      in case getSetCookie (h_parseSetCookieHeader H) (h_Date_of_String H) (h_toISOString H) now header prevCookie of
           Inl e \<Rightarrow> Threw e w
         | Inr newCookie \<Rightarrow>
             if hasSessionCookieChanged prevCookie newCookie
             then Returned (notify ''$sessionSignal'' (prefs_set key newCookie w))
             else Returned (prefs_set key newCookie w))"

definition handle_auth_token ::
  "host \<Rightarrow> int \<Rightarrow> CapacitorClientOptions option \<Rightarrow> success_context \<Rightarrow> world \<Rightarrow> world outcome" where
  "handle_auth_token H now opts ctx w =
     (case ctx_set_auth_token ctx of
        None \<Rightarrow> Returned w
      | Some authToken \<Rightarrow>
          if authToken = [] then Returned w
          else
            (let baseCookieName = prefixStr (client_cookiePrefix opts) @ ''.session_token'';
                 secureCookieName = SECURE_COOKIE_PREFIX @ baseCookieName;
                 tokenCookies = baseCookieName @ ''='' @ authToken @ '', ''
                                  @ secureCookieName @ ''='' @ authToken
             in merge_into_jar H now (normalizeCookieName (cookieName opts)) tokenCookies w))"

definition handle_set_cookie ::
  "host \<Rightarrow> int \<Rightarrow> CapacitorClientOptions option \<Rightarrow> success_context \<Rightarrow> world \<Rightarrow> world outcome" where
  "handle_set_cookie H now opts ctx w =
     (case ctx_set_cookie ctx of
        None \<Rightarrow> Returned w
      | Some setCookie \<Rightarrow>
          if setCookie = [] then Returned w
          else if hasBetterAuthCookies (h_parseSetCookieHeader H) setCookie (client_cookiePrefix opts)
          then merge_into_jar H now (normalizeCookieName (cookieName opts)) setCookie w
          else Returned w)"

definition cache_session ::
  "CapacitorClientOptions option \<Rightarrow> success_context \<Rightarrow> world \<Rightarrow> world outcome" where
  "cache_session opts ctx w =
     (if includes_str (ctx_url ctx) ''/get-session'' \<and> \<not> client_disableCache opts
      then Returned (prefs_set (normalizeCookieName (localCacheName opts))
                       (JSON_stringify (ctx_data ctx)) w)
      else Returned w)"

text \<open>The condition of the OAuth redirect block (lines 561 to 567). A missing body
  makes \<open>body?.includes?.('idToken')\<close> \<open>undefined\<close>, whose negation is true.\<close>

definition redirect_requested ::
  "CapacitorClientOptions option \<Rightarrow> success_context \<Rightarrow> bool" where
  "redirect_requested opts ctx =
     (truthy (opt_get (Some (ctx_data ctx)) ''redirect'')
      \<and> (includes_str (ctx_url ctx) ''/sign-in'' \<or> includes_str (ctx_url ctx) ''/link-social'')
      \<and> \<not> (case ctx_body ctx of None \<Rightarrow> False | Some b \<Rightarrow> includes_str b ''idToken'')
      \<and> string_truthy (client_scheme opts))"

text \<open>The proxy URL of lines 571 to 581, from the jar as it is stored at that point.\<close>

definition proxyURL ::
  "CapacitorClientOptions option \<Rightarrow> success_context \<Rightarrow> world \<Rightarrow> string" where
  "proxyURL opts ctx w =
     (let signInURL = opt_get (Some (ctx_data ctx)) ''url'';
          storedCookieJson = prefs w (normalizeCookieName (cookieName opts));
          oauthStateValue = getOAuthStateValue storedCookieJson (client_cookiePrefix opts);
          params = [(''authorizationURL'', template signInURL)]
                     @ (if truthy oauthStateValue then [(''oauthState'', template oauthStateValue)]
                        else [])
      in (case ctx_baseURL ctx of None \<Rightarrow> ''undefined'' | Some b \<Rightarrow> b)
           @ ''/capacitor-authorization-proxy?'' @ URLSearchParams_toString params)"

text \<open>The block itself: \<open>JSON.parse(context.request.body)\<close> comes first and throws a
  \<open>SyntaxError\<close> on a missing or malformed body; then the browser is opened and the
  deep-link listener registered, with the \<open>callbackURL\<close> it closes over.\<close>

definition oauth_redirect ::
  "host \<Rightarrow> CapacitorClientOptions option \<Rightarrow> success_context \<Rightarrow> world \<Rightarrow> world outcome" where
  "oauth_redirect H opts ctx w =
     (if redirect_requested opts ctx then
        (case (case ctx_body ctx of None \<Rightarrow> None | Some b \<Rightarrow> h_JSON_parse H b) of
           None \<Rightarrow> Threw SyntaxError w
         | Some parsedBody \<Rightarrow>
             Returned (w\<lparr>opened := opened w @ [proxyURL opts ctx w],
                         listeners := listeners w @ [opt_get (Some parsedBody) ''callbackURL'']\<rparr>))
      else Returned w)"

text \<open>\<open>onSuccess(context)\<close>. The two merges read the clock one after the other:
  \<open>now1\<close> and \<open>now2\<close>.\<close>

definition onSuccess ::
  "host \<Rightarrow> int \<Rightarrow> int \<Rightarrow> CapacitorClientOptions option \<Rightarrow> success_context \<Rightarrow> world
     \<Rightarrow> world outcome" where
  "onSuccess H now1 now2 opts ctx w =
     (if \<not> h_native H then Returned w
      else
        and_then (and_then (and_then
          (handle_auth_token H now1 opts ctx w)
          (handle_set_cookie H now2 opts ctx))
          (cache_session opts ctx))
          (oauth_redirect H opts ctx))"

text \<open>The options of a request as \<open>init\<close> reads them: \<open>credentials\<close>, the headers as
  a plain object, and the body fields as strings.\<close>

record request_init =
  credentials :: "string option"
  headers :: "(string \<times> string) list"
  body :: "(string \<times> string) list option"

text \<open>Lines 663 to 677, for one body field:
  \<open>if (options.body?.f) { if (options.body.f.startsWith('/')) options.body.f = `${scheme}:/${options.body.f}` }\<close>.\<close>

definition rewrite_callback ::
  "string \<Rightarrow> string \<Rightarrow> (string \<times> string) list option \<Rightarrow> (string \<times> string) list option" where
  "rewrite_callback scheme f b =
     (case b of
        None \<Rightarrow> None
      | Some bodyFields \<Rightarrow>
          (case map_of bodyFields f of
             None \<Rightarrow> Some bodyFields
           | Some u \<Rightarrow>
               if u \<noteq> [] \<and> startsWith u ''/''
               then Some (obj_set f (scheme @ '':/'' @ u) bodyFields)
               else Some bodyFields))"

text \<open>The bearer token of lines 632 to 644: \<open>JSON.parse(storedCookie || '{}')\<close> and
  the token lookup, every exception caught.\<close>

definition bearerToken :: "CapacitorClientOptions option \<Rightarrow> text_json option \<Rightarrow> json option" where
  "bearerToken opts storedCookie =
     (case JSON_parse (case storedCookie of
                         None \<Rightarrow> JsonText (JObj [])
                       | Some s \<Rightarrow> if text_truthy s then s else JsonText (JObj [])) of
        None \<Rightarrow> None
      | Some cookieData \<Rightarrow> token_of cookieData (prefixStr (client_cookiePrefix opts)))"

text \<open>The sign-out block of lines 681 to 690.\<close>

definition clear_session :: "world \<Rightarrow> world" where
  "clear_session w =
     (case store w of
        None \<Rightarrow> w
      | Some st \<Rightarrow>
          (case session st of
             None \<Rightarrow> w
           | Some s \<Rightarrow>
               w\<lparr>store := Some (st\<lparr>session :=
                    Some (s\<lparr>s_data := JNull, s_error := JNull, s_isPending := False\<rparr>)\<rparr>)\<rparr>))"

definition sign_out :: "CapacitorClientOptions option \<Rightarrow> string \<Rightarrow> world \<Rightarrow> world" where
  "sign_out opts url w =
     (if includes_str url ''/sign-out''
      then prefs_set (normalizeCookieName (localCacheName opts)) (JsonText (JObj []))
             (clear_session
                (prefs_set (normalizeCookieName (cookieName opts)) (JsonText (JObj [])) w))
      else w)"

text \<open>\<open>init(url, options?)\<close>: the state after the hook, and the \<open>{ url, options }\<close> it
  returns.\<close>

definition init ::
  "host \<Rightarrow> CapacitorClientOptions option \<Rightarrow> string \<Rightarrow> request_init option \<Rightarrow> world
     \<Rightarrow> world \<times> string \<times> request_init option" where
  "init H opts url options w =
     (if \<not> h_native H then (w, url, options)
      else
        (let w1 = w\<lparr>managersInitialized := True\<rparr>;
             storedCookie = prefs w1 (normalizeCookieName (cookieName opts));
             token = bearerToken opts storedCookie;
             options1 = (case options of
                           None \<Rightarrow> \<lparr>credentials = None, headers = [], body = None\<rparr>
                         | Some x \<Rightarrow> x);
             options2 = options1\<lparr>credentials := Some ''omit'',
                          headers := assign_all [] (headers options1 @
                            (if truthy token then [(''Authorization'', ''Bearer '' @ template token)]
                             else []))\<rparr>;
             options3 =
               (case client_scheme opts of
                  None \<Rightarrow> options2
                | Some scheme \<Rightarrow>
                    if scheme = [] then options2
                    else options2\<lparr>
                      headers := assign_all [] (headers options2 @
                        [(''capacitor-origin'', scheme @ ''://''), (''x-skip-oauth-proxy'', ''true'')]),
                      body := rewrite_callback scheme ''errorCallbackURL''
                                (rewrite_callback scheme ''newUserCallbackURL''
                                   (rewrite_callback scheme ''callbackURL'' (body options2)))\<rparr>)
         in (sign_out opts url w1, url, Some options3)))"

section \<open>Reference predicates\<close>

text \<open>
  The predicates below are not code of the module: they say, in the words of the
  specification, what the functions above are compared with.
\<close>

text \<open>An entry of a stored record survives the filter of \<open>getCookie\<close> at time \<open>now\<close>:
  it has no expiry (\<open>null\<close>, or the empty string), or its expiry parses to a time that
  is not before \<open>now\<close>.\<close>

definition unexpired :: "(string \<Rightarrow> js_date) \<Rightarrow> int \<Rightarrow> StoredCookie \<Rightarrow> bool" where
  "unexpired Date_parse now c =
     (case sc_expires c of
        None \<Rightarrow> True
      | Some e \<Rightarrow> e = [] \<or> date_ge_now (Date_parse e) now)"

text \<open>A stripped cookie name matches a classification prefix.\<close>

definition prefix_matches :: "string \<Rightarrow> string \<Rightarrow> bool" where
  "prefix_matches stripped p =
     (if p \<noteq> [] then startsWith stripped p
      else endsWith stripped ''session_token'' \<or> endsWith stripped ''session_data'')"

text \<open>
  The keys of an object are in property order: distinct, the integer indices first in
  ascending order, then the other keys. Every object the module builds is in this order.
\<close>

fun ordered_keys :: "string list \<Rightarrow> bool" where
  "ordered_keys [] = True"
| "ordered_keys [k] = True"
| "ordered_keys (k # k' # ks) =
     ((case array_index k of
         None \<Rightarrow> array_index k' = None
       | Some n \<Rightarrow> (case array_index k' of None \<Rightarrow> True | Some n' \<Rightarrow> n \<le> n'))
      \<and> ordered_keys (k' # ks))"

definition js_ordered :: "(string \<times> 'a) list \<Rightarrow> bool" where
  "js_ordered kvs = (distinct (map fst kvs) \<and> ordered_keys (map fst kvs))"

text \<open>
  A parsed cookie can be stored at time \<open>now\<close> and is not expired at the time \<open>later\<close>
  of reading: it has no expiry, or its expiry is a valid date whose stored rendering
  parses to a time that is not before \<open>later\<close>.
\<close>

definition valid_unexpired ::
  "date_reader \<Rightarrow> (int \<Rightarrow> string) \<Rightarrow> (string \<Rightarrow> js_date) \<Rightarrow> int \<Rightarrow> int \<Rightarrow> CookieAttributes
     \<Rightarrow> bool" where
  "valid_unexpired Date_of_String toISOString Date_parse now later cookie =
     (case cookie_expiry Date_of_String now cookie of
        None \<Rightarrow> True
      | Some InvalidDate \<Rightarrow> False
      | Some (Date t) \<Rightarrow> date_ge_now (Date_parse (toISOString t)) later)"

text \<open>A JSON value has the shape of a \<open>StoredCookie\<close>: an object with a string
  \<open>value\<close> and an \<open>expires\<close> that is a string or \<open>null\<close>.\<close>

fun is_stored_entry :: "json \<Rightarrow> bool" where
  "is_stored_entry (JObj [(k1, JStr s), (k2, e)]) =
     (k1 = ''value'' \<and> k2 = ''expires''
      \<and> (case e of JNull \<Rightarrow> True | JStr x \<Rightarrow> True | _ \<Rightarrow> False))"
| "is_stored_entry v = False"

text \<open>\<open>value || null\<close> for the \<open>value\<close> of a stored entry.\<close>

definition nonempty_value :: "StoredCookie \<Rightarrow> json option" where
  "nonempty_value c = (if sc_value c = [] then None else Some (JStr (sc_value c)))"

text \<open>
  The names of the OAuth state cookie in the order of preference: for each configured
  prefix in turn, the secure-prefixed name and then the unprefixed one. The OAuth state
  of a stored record is the first non-empty value under these names.
\<close>

definition oauth_state_names :: "string list \<Rightarrow> string list" where
  "oauth_state_names ps =
     concat (map (\<lambda>p. [''__Secure-'' @ p @ ''.oauth_state'', p @ ''.oauth_state'']) ps)"

fun first_nonempty :: "cookie_record \<Rightarrow> string list \<Rightarrow> json option" where
  "first_nonempty jar [] = None"
| "first_nonempty jar (name # rest) =
     (case Option.bind (map_of jar name) nonempty_value of
        Some v \<Rightarrow> Some v
      | None \<Rightarrow> first_nonempty jar rest)"

section \<open>Example records\<close>

definition jar_t1 :: cookie_record where
  "jar_t1 =
     [(''better-auth.session_token'',
       \<lparr>sc_value = ''t1'', sc_expires = Some ''1970-01-01T00:00:01.000Z''\<rparr>)]"

definition jar_t1_later :: cookie_record where
  "jar_t1_later =
     [(''better-auth.session_token'',
       \<lparr>sc_value = ''t1'', sc_expires = Some ''1970-01-01T00:00:03.000Z''\<rparr>)]"

definition jar_t2 :: cookie_record where
  "jar_t2 =
     [(''better-auth.session_token'',
       \<lparr>sc_value = ''t2'', sc_expires = Some ''1970-01-01T00:00:01.000Z''\<rparr>)]"

definition jar_both :: cookie_record where
  "jar_both =
     [(''better-auth.session_token'', \<lparr>sc_value = ''plain-token'', sc_expires = None\<rparr>),
      (''__Secure-better-auth.session_token'', \<lparr>sc_value = ''secure-token'', sc_expires = None\<rparr>)]"

definition example_prefs :: preferences where
  "example_prefs key =
     (if key = ''better-auth_cookie'' then Some (JsonText (record_json jar_both)) else None)"

section \<open>Example hosts\<close>

text \<open>
  The host functions at the inputs the examples use: what \<open>Date.parse\<close> returns for
  three ISO date strings, what \<open>toISOString\<close> prints for their time values, what
  \<open>new Date(String(d))\<close> gives, and the map \<open>parseSetCookieHeader\<close> returns for the
  example headers. An invalid date prints as \<open>Invalid Date\<close>, which no host reads as
  a date; a date between 1970 and 2100 comes back without its milliseconds. The examples
  ask for no other date, and the example host answers \<open>Invalid Date\<close> there.
\<close>

definition example_Date_of_String :: date_reader where
  "example_Date_of_String d =
     (case d of
        InvalidDate \<Rightarrow> InvalidDate
      | Date t \<Rightarrow> if 0 \<le> t \<and> t < 4102444800000 then Date (t - t mod 1000) else InvalidDate)"

definition example_Date_parse :: "string \<Rightarrow> js_date" where
  "example_Date_parse s =
     (if s = ''1970-01-01T00:00:01.000Z'' then Date 1000
      else if s = ''1970-01-01T00:00:02.000Z'' then Date 2000
      else if s = ''1970-01-01T00:00:03.000Z'' then Date 3000
      else InvalidDate)"

definition example_toISOString :: "int \<Rightarrow> string" where
  "example_toISOString t =
     (if t = 1000 then ''1970-01-01T00:00:01.000Z''
      else if t = 2000 then ''1970-01-01T00:00:02.000Z''
      else if t = 3000 then ''1970-01-01T00:00:03.000Z''
      else ''another date'')"

definition example_parser :: cookie_parser where
  "example_parser h =
     (if h = ''__Secure-better-auth.session_token=x'' then
        [(''__Secure-better-auth.session_token'',
          \<lparr>attr_value = ''x'', attr_max_age = None, attr_expires = None\<rparr>)]
      else if h = ''__cf_bm=x'' then
        [(''__cf_bm'', \<lparr>attr_value = ''x'', attr_max_age = None, attr_expires = None\<rparr>)]
      else if h = ''foo_session_token=x'' then
        [(''foo_session_token'', \<lparr>attr_value = ''x'', attr_max_age = None, attr_expires = None\<rparr>)]
      else if h = ''a=b; Max-Age=0'' then
        [(''a'', \<lparr>attr_value = ''b'', attr_max_age = Some (Num 0), attr_expires = None\<rparr>)]
      else if h = ''a=b; Max-Age=1'' then
        [(''a'', \<lparr>attr_value = ''b'', attr_max_age = Some (Num 1), attr_expires = None\<rparr>)]
      else if h = ''a=b; Max-Age=-1'' then
        [(''a'', \<lparr>attr_value = ''b'', attr_max_age = Some (Num (- 1)), attr_expires = None\<rparr>)]
      else if h = ''a=b; Max-Age=10000000000000'' then
        [(''a'', \<lparr>attr_value = ''b'', attr_max_age = Some (Num 10000000000000), attr_expires = None\<rparr>)]
      else if h = ''a=b; Expires=garbage'' then
        [(''a'', \<lparr>attr_value = ''b'', attr_max_age = None, attr_expires = Some InvalidDate\<rparr>)]
      else if h = ''__proto__=x'' then
        [(''__proto__'', \<lparr>attr_value = ''x'', attr_max_age = None, attr_expires = None\<rparr>)]
      else if h = ''a=1, b=2; Max-Age=1'' then
        [(''a'', \<lparr>attr_value = ''1'', attr_max_age = None, attr_expires = None\<rparr>),
         (''b'', \<lparr>attr_value = ''2'', attr_max_age = Some (Num 1), attr_expires = None\<rparr>)]
      else [])"

text \<open>
  A host for the hooks, with \<open>JSON.parse\<close> at the two request bodies the examples
  use; a client configured with the scheme \<open>myapp\<close>; a jar with both OAuth state
  cookies; a state with a jar and a session atom; the context of a sign-in response that
  asks for a redirect to \<open>https://idp/auth\<close>.
\<close>

definition example_body_parse :: "string \<Rightarrow> json option" where
  "example_body_parse b =
     (if b = ''{\"provider\":\"google\",\"callbackURL\":\"myapp://auth/callback\"}'' then
        Some (JObj [(''provider'', JStr ''google''), (''callbackURL'', JStr ''myapp://auth/callback'')])
      else if b = ''{\"provider\":\"google\",\"idToken\":{\"token\":\"t\"}}'' then
        Some (JObj [(''provider'', JStr ''google''), (''idToken'', JObj [(''token'', JStr ''t'')])])
      else None)"

definition example_host :: host where
  "example_host =
     \<lparr>h_native = True, h_parseSetCookieHeader = example_parser,
      h_Date_of_String = example_Date_of_String, h_toISOString = example_toISOString,
      h_JSON_parse = example_body_parse\<rparr>"

definition example_opts :: "CapacitorClientOptions option" where
  "example_opts =
     Some \<lparr>opt_storagePrefix = None, opt_cookiePrefix = None, opt_scheme = Some ''myapp'',
           opt_disableCache = None\<rparr>"

definition jar_oauth :: cookie_record where
  "jar_oauth =
     [(''better-auth.oauth_state'', \<lparr>sc_value = ''plain-state'', sc_expires = None\<rparr>),
      (''__Secure-better-auth.oauth_state'', \<lparr>sc_value = ''secure-state'', sc_expires = None\<rparr>)]"

definition example_session :: session_atom where
  "example_session =
     \<lparr>s_data = JObj [(''user'', JStr ''u1'')], s_error = JNull, s_isPending = True,
      s_other = [(''isRefetching'', JBool False)]\<rparr>"

definition example_world :: "cookie_record \<Rightarrow> world" where
  "example_world jar =
     \<lparr>prefs = (\<lambda>key. if key = ''better-auth_cookie'' then Some (JsonText (record_json jar)) else None),
      store = Some \<lparr>notified = [], session = Some example_session\<rparr>,
      opened = [], listeners = [], managersInitialized = False\<rparr>"

definition example_redirect :: "string \<Rightarrow> success_context" where
  "example_redirect b =
     \<lparr>ctx_set_auth_token = None, ctx_set_cookie = None,
      ctx_data = JObj [(''url'', JStr ''https://idp/auth''), (''redirect'', JBool True)],
      ctx_url = ''https://api.example.com/api/auth/sign-in/social'',
      ctx_body = Some b,
      ctx_baseURL = Some ''https://api.example.com/api/auth''\<rparr>"

definition example_body :: string where
  "example_body = ''{\"provider\":\"google\",\"callbackURL\":\"myapp://auth/callback\"}''"

definition example_idToken_body :: string where
  "example_idToken_body = ''{\"provider\":\"google\",\"idToken\":{\"token\":\"t\"}}''"

definition example_sign_out_url :: string where
  "example_sign_out_url = ''https://api.example.com/api/auth/sign-out''"

section \<open>Properties of the cookie codec\<close>

subsection \<open>Expiry of a parsed cookie\<close>

lemma cookie_expiry_max_age:
  "n \<noteq> 0 \<Longrightarrow> attr_max_age cookie = Some (Num n)
     \<Longrightarrow> cookie_expiry reparse now cookie = Some (time_clip (now + n * 1000))"
  by (simp add: cookie_expiry_def)

lemma cookie_expiry_no_max_age:
  "attr_max_age cookie = None \<Longrightarrow>
     cookie_expiry reparse now cookie = map_option reparse (attr_expires cookie)"
  by (cases "attr_expires cookie") (simp_all add: cookie_expiry_def)

lemma cookie_expiry_max_age_zero:
  "attr_max_age cookie = Some (Num 0) \<Longrightarrow>
     cookie_expiry reparse now cookie = map_option reparse (attr_expires cookie)"
  by (cases "attr_expires cookie") (simp_all add: cookie_expiry_def)

text \<open>
  Claim C8. The claim: the stored expiry is \<open>now + max-age\<close> seconds whenever a
  \<open>max-age\<close> attribute is present, for every value of \<open>max-age\<close>, \<open>0\<close> included. The
  code tests \<open>maxAge\<close> for truthiness, and \<open>0\<close> is falsy: for the header
  \<open>a=b; Max-Age=0\<close>, whose parsed cookie has \<open>max-age = 0\<close> and no \<open>expires\<close>, at
  any time \<open>now\<close> the stored entry has \<open>expires: null\<close> and not the rendering of
  \<open>now\<close>, while \<open>Max-Age=1\<close> stores the rendering of \<open>now + 1000\<close> and
  \<open>Max-Age=-1\<close> stores the rendering of \<open>now - 1000\<close>.
\<close>

theorem getSetCookie_max_age_zero:
  "getSetCookie example_parser example_Date_of_String example_toISOString 1000 ''a=b; Max-Age=0'' None =
     Inr (JsonText (JObj [(''a'', JObj [(''value'', JStr ''b''), (''expires'', JNull)])]))
   \<and> getSetCookie example_parser example_Date_of_String example_toISOString 1000 ''a=b; Max-Age=1'' None =
     Inr (JsonText (JObj [(''a'', JObj [(''value'', JStr ''b''),
                                        (''expires'', JStr ''1970-01-01T00:00:02.000Z'')])]))
   \<and> getSetCookie example_parser example_Date_of_String example_toISOString 2000 ''a=b; Max-Age=-1'' None =
     Inr (JsonText (JObj [(''a'', JObj [(''value'', JStr ''b''),
                                        (''expires'', JStr ''1970-01-01T00:00:01.000Z'')])]))"
  by code_simp

subsection \<open>The request header built from a stored record\<close>

lemma keep_entry_stored:
  "keep_entry Date_parse now (stored_json c) = Inr (unexpired Date_parse now c)"
  by (auto simp: keep_entry_def stored_json_def unexpired_def split: option.splits)

lemma filter_entries_record:
  "filter_entries Date_parse now (map (\<lambda>kc. (fst kc, stored_json (snd kc))) jar) =
     Inr (map (\<lambda>kc. (fst kc, stored_json (snd kc)))
            (filter (\<lambda>kc. unexpired Date_parse now (snd kc)) jar))"
  by (induction jar) (auto simp: keep_entry_stored)

lemma name_value_stored: "name_value (k, stored_json c) = k @ ''='' @ sc_value c"
  by (simp add: name_value_def stored_json_def template_def)

text \<open>
  Claim C1, as amended. For every stored cookie record, \<open>getCookie\<close> returns the
  \<open>name=value\<close> pairs of the surviving entries, in the order of the record, joined by
  \<open>"; "\<close>; an entry survives when its \<open>expires\<close> is \<open>null\<close> (or empty) or parses to a
  time at or after the current time, and is filtered out when its \<open>expires\<close> parses to
  a time strictly before the current time or does not parse.
\<close>

theorem getCookie_record:
  "getCookie Date_parse now (JsonText (record_json jar)) =
     Inr (join ''; '' (map (\<lambda>kc. fst kc @ ''='' @ sc_value (snd kc))
            (filter (\<lambda>kc. unexpired Date_parse now (snd kc)) jar)))"
  by (simp add: getCookie_def Object_entries_def record_json_def filter_entries_record
      name_value_stored comp_def)

text \<open>At time \<open>2000\<close>: an entry that expired at \<open>1000\<close> is left out, a session entry
  and an entry expiring at \<open>3000\<close> are kept.\<close>

theorem getCookie_record_witness:
  "getCookie example_Date_parse 2000
     (JsonText (record_json
        [(''past'', \<lparr>sc_value = ''p'', sc_expires = Some ''1970-01-01T00:00:01.000Z''\<rparr>),
         (''session'', \<lparr>sc_value = ''s'', sc_expires = None\<rparr>),
         (''future'', \<lparr>sc_value = ''f'', sc_expires = Some ''1970-01-01T00:00:03.000Z''\<rparr>)]))
   = Inr ''session=s; future=f''"
  using getCookie_record [of example_Date_parse 2000
      "[(''past'', \<lparr>sc_value = ''p'', sc_expires = Some ''1970-01-01T00:00:01.000Z''\<rparr>),
        (''session'', \<lparr>sc_value = ''s'', sc_expires = None\<rparr>),
        (''future'', \<lparr>sc_value = ''f'', sc_expires = Some ''1970-01-01T00:00:03.000Z''\<rparr>)]"]
  by (simp add: unexpired_def example_Date_parse_def)

text \<open>The claim as stated fails on the boundary: an entry whose \<open>expires\<close> is exactly
  the current time is at or before the current time, and it is in the output.\<close>

theorem getCookie_keeps_entry_expiring_now:
  "example_Date_parse ''1970-01-01T00:00:02.000Z'' = Date 2000
   \<and> getCookie example_Date_parse 2000
        (JsonText (record_json
           [(''a'', \<lparr>sc_value = ''b'', sc_expires = Some ''1970-01-01T00:00:02.000Z''\<rparr>)]))
      = Inr ''a=b''"
  by code_simp

section \<open>Properties of the classifier\<close>

lemma match_suffixes_iff: "match_suffixes n sfxs = (\<exists>s \<in> set sfxs. endsWith n s)"
  by (induction sfxs) auto

lemma match_prefixes_iff: "match_prefixes n ps = (\<exists>p \<in> set ps. prefix_matches n p)"
  by (induction ps) (auto simp: prefix_matches_def match_suffixes_iff cookieSuffixes_def)

lemma scan_names_iff:
  "scan_names names ps =
     (\<exists>name \<in> set names. \<exists>p \<in> set ps. prefix_matches (stripSecureCookiePrefix name) p)"
  by (induction names) (auto simp: match_prefixes_iff)

text \<open>
  Claim C4. \<open>hasBetterAuthCookies\<close> is true exactly when some cookie name of the
  parsed header, stripped of the secure prefix, matches some classification prefix: a
  non-empty prefix matches a name that starts with it, the empty prefix matches a name
  that ends with \<open>session_token\<close> or \<open>session_data\<close>. For a header whose only cookie
  is \<open>__Secure-better-auth.session_token\<close> and the prefix \<open>better-auth\<close> it is true,
  for \<open>__cf_bm\<close> and \<open>better-auth\<close> false, for \<open>foo_session_token\<close> and the empty
  prefix true.
\<close>

theorem hasBetterAuthCookies_spec:
  "hasBetterAuthCookies P h cp =
     (\<exists>name \<in> set (map fst (P h)). \<exists>p \<in> set (prefixes_of cp).
        prefix_matches (stripSecureCookiePrefix name) p)
   \<and> (map fst (P h) = [''__Secure-better-auth.session_token'']
          \<longrightarrow> hasBetterAuthCookies P h (Multiple [''better-auth'']))
   \<and> (map fst (P h) = [''__cf_bm'']
          \<longrightarrow> \<not> hasBetterAuthCookies P h (Multiple [''better-auth'']))
   \<and> (map fst (P h) = [''foo_session_token'']
          \<longrightarrow> hasBetterAuthCookies P h (Multiple ['''']))"
proof -
  have general: "\<And>c. hasBetterAuthCookies P h c =
     (\<exists>name \<in> set (map fst (P h)). \<exists>p \<in> set (prefixes_of c).
        prefix_matches (stripSecureCookiePrefix name) p)"
    unfolding hasBetterAuthCookies_def by (rule scan_names_iff)
  have e1: "prefix_matches (stripSecureCookiePrefix ''__Secure-better-auth.session_token'') ''better-auth''"
    by code_simp
  have e2: "\<not> prefix_matches (stripSecureCookiePrefix ''__cf_bm'') ''better-auth''"
    by code_simp
  have e3: "prefix_matches (stripSecureCookiePrefix ''foo_session_token'') ''''"
    by code_simp
  show ?thesis
    using e1 e2 e3 by (simp add: general)
qed

theorem hasBetterAuthCookies_spec_witness:
  "hasBetterAuthCookies example_parser ''__Secure-better-auth.session_token=x'' (Multiple [''better-auth''])
   \<and> \<not> hasBetterAuthCookies example_parser ''__cf_bm=x'' (Multiple [''better-auth''])
   \<and> hasBetterAuthCookies example_parser ''foo_session_token=x'' (Multiple [''''])"
proof -
  have a: "map fst (example_parser ''__Secure-better-auth.session_token=x'')
             = [''__Secure-better-auth.session_token'']"
    by (simp add: example_parser_def)
  have b: "map fst (example_parser ''__cf_bm=x'') = [''__cf_bm'']"
    by (simp add: example_parser_def)
  have c: "map fst (example_parser ''foo_session_token=x'') = [''foo_session_token'']"
    by (simp add: example_parser_def)
  note t1 = hasBetterAuthCookies_spec [of example_parser "''__Secure-better-auth.session_token=x''"
      "Single []", THEN conjunct2, THEN conjunct1, THEN mp, OF a]
  note t2 = hasBetterAuthCookies_spec [of example_parser "''__cf_bm=x''" "Single []",
      THEN conjunct2, THEN conjunct2, THEN conjunct1, THEN mp, OF b]
  note t3 = hasBetterAuthCookies_spec [of example_parser "''foo_session_token=x''" "Single []",
      THEN conjunct2, THEN conjunct2, THEN conjunct2, THEN mp, OF c]
  show ?thesis
    using t1 t2 t3 by (intro conjI)
qed

section \<open>Properties of change detection\<close>

lemma any_changed_iff:
  "any_changed prev nxt ks =
     (\<exists>k \<in> set ks.
        strict_neq (opt_get (js_get prev k) ''value'') (opt_get (js_get nxt k) ''value''))"
  by (induction ks) auto

lemma set_add_session_keys:
  "set (add_session_keys ks acc) = set acc \<union> {k \<in> set ks. is_session_key k}"
  unfolding add_session_keys_def
  by (induction ks arbitrary: acc) (auto simp: set_add_def)

lemma js_get_record:
  "js_get (record_json jar) k = map_option stored_json (map_of jar k)"
  unfolding record_json_def by (induction jar) auto

lemma value_of_record:
  "opt_get (js_get (record_json jar) k) ''value'' =
     map_option (\<lambda>c. JStr (sc_value c)) (map_of jar k)"
  by (cases "map_of jar k") (simp_all add: js_get_record stored_json_def)

lemma strict_neq_values:
  "strict_neq (map_option (\<lambda>c. JStr (sc_value c)) x) (map_option (\<lambda>c. JStr (sc_value c)) y)
     = (map_option sc_value x \<noteq> map_option sc_value y)"
  by (cases x; cases y) (simp_all add: strict_neq_def)

lemma keys_record: "Object_keys (record_json jar) = Inr (map fst jar)"
  by (simp add: Object_keys_def record_json_def comp_def)

lemma changed_records:
  "hasSessionCookieChanged (Some (JsonText (record_json prev))) (JsonText (record_json nxt)) =
     (\<exists>k \<in> set (map fst prev) \<union> set (map fst nxt).
        is_session_key k
        \<and> map_option sc_value (map_of prev k) \<noteq> map_option sc_value (map_of nxt k))"
  by (auto simp: hasSessionCookieChanged_def text_truthy_def keys_record any_changed_iff
      set_add_session_keys value_of_record strict_neq_values)

lemma map_of_values_eq:
  "map fst prev = map fst nxt
     \<Longrightarrow> map (\<lambda>kc. sc_value (snd kc)) prev = map (\<lambda>kc. sc_value (snd kc)) nxt
     \<Longrightarrow> map_option sc_value (map_of prev k) = map_option sc_value (map_of nxt k)"
proof (induction prev arbitrary: nxt)
  case Nil
  then show ?case by simp
next
  case (Cons a prev)
  then obtain b nxt' where n: "nxt = b # nxt'" by (cases nxt) auto
  with Cons show ?case by (cases a; cases b) auto
qed

lemma session_token_is_session_key: "is_session_key ''better-auth.session_token''"
  by code_simp

text \<open>
  Claim C3. \<open>hasSessionCookieChanged\<close> is true when the previous record is absent.
  For two stored records it is true exactly when some name of either record that
  contains \<open>session_token\<close> or \<open>session_data\<close> has different values in the two
  records, a name missing from one of them counting as different. Two records with the
  same names and the same values, whatever their \<open>expires\<close> fields, give false.
\<close>

theorem hasSessionCookieChanged_spec:
  "hasSessionCookieChanged None newCookie
   \<and> hasSessionCookieChanged (Some (JsonText (record_json prev))) (JsonText (record_json nxt)) =
       (\<exists>k \<in> set (map fst prev) \<union> set (map fst nxt).
          is_session_key k
          \<and> map_option sc_value (map_of prev k) \<noteq> map_option sc_value (map_of nxt k))
   \<and> (map fst prev = map fst nxt
        \<and> map (\<lambda>kc. sc_value (snd kc)) prev = map (\<lambda>kc. sc_value (snd kc)) nxt
       \<longrightarrow> \<not> hasSessionCookieChanged (Some (JsonText (record_json prev)))
               (JsonText (record_json nxt)))"
proof (intro conjI impI)
  show "hasSessionCookieChanged None newCookie"
    by (simp add: hasSessionCookieChanged_def)
  show "hasSessionCookieChanged (Some (JsonText (record_json prev))) (JsonText (record_json nxt)) =
       (\<exists>k \<in> set (map fst prev) \<union> set (map fst nxt).
          is_session_key k
          \<and> map_option sc_value (map_of prev k) \<noteq> map_option sc_value (map_of nxt k))"
    by (rule changed_records)
  assume "map fst prev = map fst nxt
        \<and> map (\<lambda>kc. sc_value (snd kc)) prev = map (\<lambda>kc. sc_value (snd kc)) nxt"
  then have "\<And>k. map_option sc_value (map_of prev k) = map_option sc_value (map_of nxt k)"
    by (intro map_of_values_eq) simp_all
  then show "\<not> hasSessionCookieChanged (Some (JsonText (record_json prev)))
               (JsonText (record_json nxt))"
    unfolding changed_records by simp
qed

text \<open>Two records that differ only in \<open>expires\<close> for \<open>better-auth.session_token\<close>:
  false; that differ in its value: true; one of them without the key: true; no previous
  record: true.\<close>

theorem hasSessionCookieChanged_spec_witness:
  "\<not> hasSessionCookieChanged (Some (JsonText (record_json jar_t1)))
        (JsonText (record_json jar_t1_later))
   \<and> hasSessionCookieChanged (Some (JsonText (record_json jar_t1))) (JsonText (record_json jar_t2))
   \<and> hasSessionCookieChanged (Some (JsonText (record_json jar_t1))) (JsonText (record_json []))
   \<and> hasSessionCookieChanged None (JsonText (record_json jar_t1))"
proof -
  have same: "map fst jar_t1 = map fst jar_t1_later
        \<and> map (\<lambda>kc. sc_value (snd kc)) jar_t1 = map (\<lambda>kc. sc_value (snd kc)) jar_t1_later"
    by (simp add: jar_t1_def jar_t1_later_def)
  note a = hasSessionCookieChanged_spec [of "JsonText (record_json jar_t1)" jar_t1 jar_t1_later,
      THEN conjunct2, THEN conjunct2, THEN mp, OF same]
  have b: "hasSessionCookieChanged (Some (JsonText (record_json jar_t1)))
             (JsonText (record_json jar_t2))"
    unfolding hasSessionCookieChanged_spec [of "JsonText (record_json jar_t1)" jar_t1 jar_t2,
      THEN conjunct2, THEN conjunct1]
    using session_token_is_session_key by (simp add: jar_t1_def jar_t2_def)
  have c: "hasSessionCookieChanged (Some (JsonText (record_json jar_t1)))
             (JsonText (record_json []))"
    unfolding hasSessionCookieChanged_spec [of "JsonText (record_json jar_t1)" jar_t1 "[]",
      THEN conjunct2, THEN conjunct1]
    using session_token_is_session_key by (simp add: jar_t1_def)
  note d = hasSessionCookieChanged_spec [of "JsonText (record_json jar_t1)" jar_t1 jar_t1,
      THEN conjunct1]
  show ?thesis using a b c d by (intro conjI)
qed

section \<open>Properties of the bearer token\<close>

lemma truthy_js_get_record:
  "truthy (js_get (record_json jar) k) = (map_of jar k \<noteq> None)"
  by (cases "map_of jar k") (simp_all add: js_get_record stored_json_def)

lemma record_json_not_null: "record_json jar \<noteq> JNull"
  by (simp add: record_json_def)

lemma token_of_record:
  "token_of (record_json jar) cp =
     (case map_of jar (''__Secure-'' @ cp @ ''.session_token'') of
        Some c \<Rightarrow> nonempty_value c
      | None \<Rightarrow>
          (case map_of jar (cp @ ''.session_token'') of
             Some c \<Rightarrow> nonempty_value c
           | None \<Rightarrow> None))"
  by (auto simp: token_of_def record_json_not_null truthy_js_get_record value_of_record Let_def
      SECURE_COOKIE_PREFIX_def nonempty_value_def split: option.splits)

text \<open>
  Claim C5. On a native platform, with the stored record \<open>jar\<close> in the jar of the
  storage prefix, \<open>getCapacitorAuthToken\<close> looks up the secure-prefixed session-token
  name first and the unprefixed name only when the record has no secure-prefixed entry,
  and returns the value of the entry it found, or \<open>null\<close> (when there is no entry, or
  the value is empty). So a record that has a secure-prefixed entry with a non-empty
  value gives that value, whatever the unprefixed entry holds.
\<close>

theorem getCapacitorAuthToken_spec:
  assumes "native"
    and "Preferences (normalizeCookieName (or_default sp @ ''_cookie''))
           = Some (JsonText (record_json jar))"
  shows "getCapacitorAuthToken native Preferences
           (Some \<lparr>token_storagePrefix = sp, token_cookiePrefix = cp\<rparr>) =
           (case map_of jar (''__Secure-'' @ or_default cp @ ''.session_token'') of
              Some c \<Rightarrow> nonempty_value c
            | None \<Rightarrow>
                (case map_of jar (or_default cp @ ''.session_token'') of
                   Some c \<Rightarrow> nonempty_value c
                 | None \<Rightarrow> None))
         \<and> (\<forall>c. map_of jar (''__Secure-'' @ or_default cp @ ''.session_token'') = Some c
                  \<and> sc_value c \<noteq> []
               \<longrightarrow> getCapacitorAuthToken native Preferences
                     (Some \<lparr>token_storagePrefix = sp, token_cookiePrefix = cp\<rparr>)
                   = Some (JStr (sc_value c)))"
  using assms
  by (simp add: getCapacitorAuthToken_def text_truthy_def token_of_record nonempty_value_def)

text \<open>A record with both names and different values: the secure-prefixed value.\<close>

theorem getCapacitorAuthToken_spec_witness:
  "map_of jar_both ''better-auth.session_token''
     = Some \<lparr>sc_value = ''plain-token'', sc_expires = None\<rparr>
   \<and> map_of jar_both ''__Secure-better-auth.session_token''
     = Some \<lparr>sc_value = ''secure-token'', sc_expires = None\<rparr>
   \<and> getCapacitorAuthToken True example_prefs
        (Some \<lparr>token_storagePrefix = None, token_cookiePrefix = Some ''better-auth''\<rparr>)
      = Some (JStr ''secure-token'')"
proof -
  have p: "example_prefs (normalizeCookieName (or_default None @ ''_cookie''))
             = Some (JsonText (record_json jar_both))"
    by (simp add: example_prefs_def or_default_def normalizeCookieName_def)
  have s: "map_of jar_both (''__Secure-'' @ or_default (Some ''better-auth'') @ ''.session_token'')
             = Some \<lparr>sc_value = ''secure-token'', sc_expires = None\<rparr>
           \<and> sc_value \<lparr>sc_value = ''secure-token'', sc_expires = None\<rparr> \<noteq> []"
    by (simp add: jar_both_def or_default_def)
  note t = getCapacitorAuthToken_spec [of True example_prefs None jar_both "Some ''better-auth''",
      OF TrueI p, THEN conjunct2, THEN spec, THEN mp, OF s]
  show ?thesis
    using t by (simp add: jar_both_def)
qed

section \<open>Properties of objects in property order\<close>




lemma keys_update_in_place:
  "map fst (map (\<lambda>(k', v'). if k' = k then (k', v) else (k', v')) kvs) = map fst kvs"
  by (induction kvs) auto

lemma mset_obj_insert: "mset (obj_insert k v kvs) = add_mset (k, v) (mset kvs)"
  by (induction kvs) (auto split: option.splits)

lemma mset_keys_obj_insert:
  "mset (map fst (obj_insert k v kvs)) = add_mset k (mset (map fst kvs))"
proof -
  have "mset (map fst (obj_insert k v kvs)) = image_mset fst (mset (obj_insert k v kvs))"
    by simp
  also have "\<dots> = add_mset k (mset (map fst kvs))"
    by (simp add: mset_obj_insert)
  finally show ?thesis .
qed

lemma set_keys_obj_insert: "set (map fst (obj_insert k v kvs)) = insert k (set (map fst kvs))"
proof -
  have "set_mset (mset (map fst (obj_insert k v kvs))) = set_mset (add_mset k (mset (map fst kvs)))"
    by (simp only: mset_keys_obj_insert)
  then show ?thesis by simp
qed

lemma distinct_obj_insert:
  assumes "distinct (map fst kvs)" and "k \<notin> set (map fst kvs)"
  shows "distinct (map fst (obj_insert k v kvs))"
proof -
  have "mset (map fst (obj_insert k v kvs)) = mset (k # map fst kvs)"
    using mset_keys_obj_insert [of k v kvs] by simp
  moreover have "distinct (k # map fst kvs)"
    using assms by simp
  ultimately show ?thesis
    by (metis mset_eq_imp_distinct_iff)
qed

lemma ordered_keys_tail: "ordered_keys (k # ks) \<Longrightarrow> ordered_keys ks"
  by (cases ks) auto

lemma ordered_obj_insert:
  "ordered_keys (map fst kvs) \<Longrightarrow> ordered_keys (map fst (obj_insert k v kvs))"
proof (induction kvs)
  case Nil
  then show ?case by simp
next
  case (Cons a kvs)
  obtain k' v' where a: "a = (k', v')" by (cases a)
  have tl: "ordered_keys (map fst kvs)" using Cons.prems ordered_keys_tail by auto
  show ?case
  proof (cases "array_index k")
    case None
    then show ?thesis
      using Cons a tl
      by (cases kvs) (auto split: option.splits)
  next
    case (Some n)
    then show ?thesis
      using Cons a tl
      by (cases kvs) (auto split: option.splits)
  qed
qed

lemma js_ordered_obj_set: "js_ordered kvs \<Longrightarrow> js_ordered (obj_set k v kvs)"
proof (cases "map_of kvs k")
  case None
  assume o: "js_ordered kvs"
  from None have "k \<notin> set (map fst kvs)"
    by (simp add: map_of_eq_None_iff)
  with o show ?thesis
    using None by (simp add: js_ordered_def obj_set_def distinct_obj_insert ordered_obj_insert)
next
  case (Some a)
  assume o: "js_ordered kvs"
  then show ?thesis
    using Some by (simp add: js_ordered_def obj_set_def keys_update_in_place del: map_map)
qed


lemma js_ordered_Nil: "js_ordered []"
  by (simp add: js_ordered_def)


lemma ordered_keys_last_index:
  "ordered_keys (ks @ [k]) \<Longrightarrow> array_index k = Some n \<Longrightarrow> k' \<in> set ks
     \<Longrightarrow> \<exists>n'. array_index k' = Some n' \<and> n' \<le> n"
proof (induction ks arbitrary: k')
  case Nil
  then show ?case by simp
next
  case (Cons a ks)
  have tl: "ordered_keys (ks @ [k])"
    using Cons.prems(1) ordered_keys_tail by fastforce
  show ?case
  proof (cases ks)
    case Nil
    with Cons.prems show ?thesis by (auto split: option.splits)
  next
    case (Cons b ks')
    have bk: "\<exists>m. array_index b = Some m \<and> m \<le> n"
      using Cons.IH [OF tl Cons.prems(2), of b] Cons by simp
    then obtain m where m: "array_index b = Some m" "m \<le> n" by blast
    have a: "\<exists>n'. array_index a = Some n' \<and> n' \<le> n"
      using Cons.prems(1) Cons m by (auto split: option.splits)
    show ?thesis
    proof (cases "k' = a")
      case True
      with a show ?thesis by simp
    next
      case False
      with Cons.prems(3) have "k' \<in> set ks" by simp
      then show ?thesis using Cons.IH [OF tl Cons.prems(2)] by blast
    qed
  qed
qed

lemma obj_insert_last:
  "ordered_keys (map fst kvs @ [k]) \<Longrightarrow> obj_insert k v kvs = kvs @ [(k, v)]"
proof (induction kvs)
  case Nil
  then show ?case by simp
next
  case (Cons a kvs)
  obtain k' v' where a: "a = (k', v')" by (cases a)
  have tl: "ordered_keys (map fst kvs @ [k])"
    using Cons.prems ordered_keys_tail by fastforce
  show ?case
  proof (cases "array_index k")
    case None
    then show ?thesis using Cons.IH [OF tl] a by simp
  next
    case (Some n)
    have "\<exists>n'. array_index k' = Some n' \<and> n' \<le> n"
      using ordered_keys_last_index [OF _ Some, of "map fst (a # kvs)" k'] Cons.prems a by simp
    then show ?thesis using Cons.IH [OF tl] a Some by auto
  qed
qed

lemma ordered_keys_butlast: "ordered_keys (ks @ [k]) \<Longrightarrow> ordered_keys ks"
proof (induction ks)
  case Nil
  then show ?case by simp
next
  case (Cons a ks)
  then show ?case by (cases ks) auto
qed

lemma assign_all_self: "js_ordered kvs \<Longrightarrow> assign_all [] kvs = kvs"
proof (induction kvs rule: rev_induct)
  case Nil
  then show ?case by (simp add: assign_all_def)
next
  case (snoc x xs)
  have o: "js_ordered xs"
    using snoc.prems ordered_keys_butlast [of "map fst xs" "fst x"] by (simp add: js_ordered_def)
  have fresh: "map_of xs (fst x) = None"
    using snoc.prems by (simp add: js_ordered_def map_of_eq_None_iff)
  have "assign_all [] (xs @ [x]) = obj_set (fst x) (snd x) (assign_all [] xs)"
    by (simp add: assign_all_def)
  also have "\<dots> = obj_insert (fst x) (snd x) xs"
    using snoc.IH [OF o] fresh by (simp add: obj_set_def)
  also have "\<dots> = xs @ [x]"
    using obj_insert_last [of xs "fst x" "snd x"] snoc.prems by (simp add: js_ordered_def)
  finally show ?case .
qed




lemma js_ordered_obj_assign: "js_ordered kvs \<Longrightarrow> js_ordered (obj_assign k v kvs)"
  by (simp add: obj_assign_def js_ordered_obj_set)

lemma forEach_parsed_ordered:
  "forEach_parsed reparse toISO now kcs acc = Inr T \<Longrightarrow> js_ordered acc \<Longrightarrow> js_ordered T"
proof (induction kcs arbitrary: acc)
  case Nil
  then show ?case by simp
next
  case (Cons a kcs)
  obtain k c where a: "a = (k, c)" by (cases a)
  from Cons.prems(1) a obtain entry where e: "stored_entry reparse toISO now c = Inr entry"
    and r: "forEach_parsed reparse toISO now kcs (obj_assign k entry acc) = Inr T"
    by (auto split: sum.splits)
  show ?case
    using Cons.IH [OF r] Cons.prems(2) by (simp add: js_ordered_obj_assign)
qed




section \<open>Merging twice\<close>















section \<open>The round trip\<close>

lemma obj_insert_map:
  "obj_insert k (F c) (map (apsnd F) acc) = map (apsnd F) (obj_insert k c acc)"
  by (induction acc) (auto split: option.splits)

lemma map_of_apsnd_None: "(map_of (map (apsnd F) acc) k = None) = (map_of acc k = None)"
  by (simp add: map_of_eq_None_iff image_image)

lemma update_in_place_map:
  "map (\<lambda>(k', v'). if k' = k then (k', F c) else (k', v')) (map (apsnd F) acc)
     = map (apsnd F) (map (\<lambda>(k', v'). if k' = k then (k', c) else (k', v')) acc)"
  by (induction acc) auto

lemma obj_set_map:
  "obj_set k (F c) (map (apsnd F) acc) = map (apsnd F) (obj_set k c acc)"
  unfolding obj_set_def
  by (simp only: map_of_apsnd_None obj_insert_map update_in_place_map if_distrib [of "map (apsnd F)"])

lemma forEach_parsed_map:
  "\<forall>kc \<in> set kcs. fst kc \<noteq> ''__proto__'' \<and> stored_entry reparse toISO now (snd kc) = Inr (F (snd kc))
     \<Longrightarrow> forEach_parsed reparse toISO now kcs (map (apsnd F) acc)
           = Inr (map (apsnd F) (assign_all acc kcs))"
proof (induction kcs arbitrary: acc)
  case Nil
  then show ?case by (simp add: assign_all_def)
next
  case (Cons a kcs)
  obtain k c where a: "a = (k, c)" by (cases a)
  have h: "k \<noteq> ''__proto__''" "stored_entry reparse toISO now c = Inr (F c)"
    using Cons.prems a by simp_all
  have rest: "\<forall>kc \<in> set kcs. fst kc \<noteq> ''__proto__'' \<and> stored_entry reparse toISO now (snd kc) = Inr (F (snd kc))"
    using Cons.prems by simp
  have "forEach_parsed reparse toISO now (a # kcs) (map (apsnd F) acc)
          = forEach_parsed reparse toISO now kcs (map (apsnd F) (obj_set k c acc))"
    using a h by (simp add: obj_assign_def obj_set_map)
  also have "\<dots> = Inr (map (apsnd F) (assign_all (obj_set k c acc) kcs))"
    by (rule Cons.IH [OF rest])
  finally show ?case using a by (simp add: assign_all_def)
qed

lemma mset_obj_set_fresh:
  "k \<notin> set (map fst kvs) \<Longrightarrow> mset (obj_set k v kvs) = add_mset (k, v) (mset kvs)"
  by (simp add: obj_set_def map_of_eq_None_iff mset_obj_insert)

lemma keys_obj_set: "set (map fst (obj_set k v kvs)) = insert k (set (map fst kvs))"
proof (cases "map_of kvs k")
  case None
  then show ?thesis by (simp add: obj_set_def set_keys_obj_insert del: set_map)
next
  case (Some a)
  then have "k \<in> set (map fst kvs)"
    by (metis map_of_eq_None_iff option.distinct(1) set_map)
  then show ?thesis
    using Some by (auto simp add: obj_set_def keys_update_in_place simp del: set_map map_map)
qed

lemma mset_assign_all:
  "distinct (map fst kcs) \<Longrightarrow> set (map fst kcs) \<inter> set (map fst acc) = {}
     \<Longrightarrow> mset (assign_all acc kcs) = mset acc + mset kcs"
proof (induction kcs arbitrary: acc)
  case Nil
  then show ?case by (simp add: assign_all_def)
next
  case (Cons a kcs)
  have fresh: "fst a \<notin> set (map fst acc)" using Cons.prems(2) by auto
  have disj: "set (map fst kcs) \<inter> set (map fst (obj_set (fst a) (snd a) acc)) = {}"
    using Cons.prems by (auto simp add: keys_obj_set simp del: set_map)
  have "mset (assign_all acc (a # kcs)) = mset (assign_all (obj_set (fst a) (snd a) acc) kcs)"
    by (simp add: assign_all_def)
  also have "\<dots> = mset (obj_set (fst a) (snd a) acc) + mset kcs"
    using Cons.IH [OF _ disj] Cons.prems(1) by simp
  also have "\<dots> = mset acc + mset (a # kcs)"
    using mset_obj_set_fresh [OF fresh, of "snd a"] by simp
  finally show ?case .
qed

lemma filter_entries_all:
  "\<forall>kv \<in> set kvs. keep_entry Date_parse now (snd kv) = Inr True
     \<Longrightarrow> filter_entries Date_parse now kvs = Inr kvs"
  by (induction kvs) auto

lemma keep_valid_unexpired:
  assumes "valid_unexpired reparse toISO Date_parse now later c"
  shows "\<exists>e. stored_entry reparse toISO now c = Inr e \<and> keep_entry Date_parse later e = Inr True
            \<and> js_get e ''value'' = Some (JStr (attr_value c))"
proof (cases "cookie_expiry reparse now c")
  case None
  then show ?thesis by (simp add: stored_entry_def keep_entry_def)
next
  case (Some d)
  show ?thesis
  proof (cases d)
    case InvalidDate
    with Some assms show ?thesis by (simp add: valid_unexpired_def)
  next
    case (Date t)
    with Some assms show ?thesis by (simp add: valid_unexpired_def stored_entry_def keep_entry_def)
  qed
qed

lemma name_value_entry:
  "js_get e ''value'' = Some (JStr s) \<Longrightarrow> name_value (k, e) = k @ ''='' @ s"
  by (simp add: name_value_def template_def)

text \<open>
  The round trip where it works. For a header whose parsed cookies have distinct names,
  none of them \<open>__proto__\<close>, each with no expiry or with a valid expiry that is not
  before the time of reading, \<open>getCookie(getSetCookie(header, "{}"))\<close> is the
  \<open>name=value\<close> pairs of exactly those cookies, joined by \<open>"; "\<close>, in the property
  order of the jar, which is a permutation of the parsed cookies.
\<close>

lemma round_trip:
  assumes d: "distinct (map fst (P h))"
    and np: "''__proto__'' \<notin> set (map fst (P h))"
    and v: "\<forall>kc \<in> set (P h). valid_unexpired reparse toISO Date_parse now later (snd kc)"
  shows "(\<exists>jar. getSetCookie P reparse toISO now h (Some (JsonText (JObj []))) = Inr jar
            \<and> getCookie Date_parse later jar =
                Inr (join ''; '' (map (\<lambda>kc. fst kc @ ''='' @ attr_value (snd kc))
                                   (assign_all [] (P h)))))
         \<and> mset (assign_all [] (P h)) = mset (P h)"
proof -
  define F where "F c = (case stored_entry reparse toISO now c of Inr e \<Rightarrow> e | Inl x \<Rightarrow> JNull)" for c
  let ?L = "assign_all [] (P h)"
  let ?T = "map (apsnd F) ?L"
  have each: "\<forall>kc \<in> set (P h). stored_entry reparse toISO now (snd kc) = Inr (F (snd kc))
                \<and> keep_entry Date_parse later (F (snd kc)) = Inr True
                \<and> js_get (F (snd kc)) ''value'' = Some (JStr (attr_value (snd kc)))"
  proof
    fix kc assume "kc \<in> set (P h)"
    then have "valid_unexpired reparse toISO Date_parse now later (snd kc)" using v by simp
    from keep_valid_unexpired [OF this] show "stored_entry reparse toISO now (snd kc) = Inr (F (snd kc))
                \<and> keep_entry Date_parse later (F (snd kc)) = Inr True
                \<and> js_get (F (snd kc)) ''value'' = Some (JStr (attr_value (snd kc)))"
      by (auto simp: F_def)
  qed
  have pre: "\<forall>kc \<in> set (P h). fst kc \<noteq> ''__proto__'' \<and> stored_entry reparse toISO now (snd kc) = Inr (F (snd kc))"
  proof
    fix kc assume m: "kc \<in> set (P h)"
    then have "fst kc \<in> set (map fst (P h))" by simp
    with np have "fst kc \<noteq> ''__proto__''" by metis
    with each m show "fst kc \<noteq> ''__proto__'' \<and> stored_entry reparse toISO now (snd kc) = Inr (F (snd kc))"
      by simp
  qed
  have T: "forEach_parsed reparse toISO now (P h) [] = Inr ?T"
    using forEach_parsed_map [OF pre, of "[]"] by simp
  have oT: "js_ordered ?T"
    using forEach_parsed_ordered [OF T js_ordered_Nil] .
  have perm: "mset ?L = mset (P h)"
    using mset_assign_all [OF d, of "[]"] by simp
  then have setL: "set ?L = set (P h)"
    by (metis set_mset_mset)
  have jar: "getSetCookie P reparse toISO now h (Some (JsonText (JObj []))) = Inr (JsonText (JObj ?T))"
    using T oT
    by (simp add: getSetCookie_def JSON_stringify_def merge_prev_def text_truthy_def spread2_def
        assign_all_self)
  have keepT: "\<forall>kv \<in> set ?T. keep_entry Date_parse later (snd kv) = Inr True"
    using each setL by auto
  have nv: "name_value (apsnd F x) = fst x @ ''='' @ attr_value (snd x)" if "x \<in> set ?L" for x
  proof -
    have "js_get (F (snd x)) ''value'' = Some (JStr (attr_value (snd x)))"
      using each setL that by auto
    then show ?thesis
      by (cases x) (simp add: name_value_entry)
  qed
  have names: "map name_value ?T = map (\<lambda>kc. fst kc @ ''='' @ attr_value (snd kc)) ?L"
    using nv by simp
  have "getCookie Date_parse later (JsonText (JObj ?T)) = Inr (join ''; '' (map name_value ?T))"
    using filter_entries_all [OF keepT]
    by (simp add: getCookie_def Object_entries_def del: map_map)
  then have "getCookie Date_parse later (JsonText (JObj ?T)) =
          Inr (join ''; '' (map (\<lambda>kc. fst kc @ ''='' @ attr_value (snd kc)) ?L))"
    by (simp only: names)
  with jar perm show ?thesis by blast
qed

text \<open>The header \<open>a=1, b=2; Max-Age=1\<close> stored at time \<open>1000\<close> and read at time
  \<open>2000\<close>, when \<open>b\<close> is about to expire.\<close>

lemma round_trip_example:
  "getSetCookie example_parser example_Date_of_String example_toISOString 1000 ''a=1, b=2; Max-Age=1'' (Some (JsonText (JObj [])))
     = Inr (JsonText (JObj [(''a'', JObj [(''value'', JStr ''1''), (''expires'', JNull)]),
                            (''b'', JObj [(''value'', JStr ''2''), (''expires'', JStr ''1970-01-01T00:00:02.000Z'')])]))
   \<and> getCookie example_Date_parse 2000
       (JsonText (JObj [(''a'', JObj [(''value'', JStr ''1''), (''expires'', JNull)]),
                        (''b'', JObj [(''value'', JStr ''2''), (''expires'', JStr ''1970-01-01T00:00:02.000Z'')])]))
     = Inr ''a=1; b=2''"
proof -
  have d: "distinct (map fst (example_parser ''a=1, b=2; Max-Age=1''))"
    by (simp add: example_parser_def)
  have np: "''__proto__'' \<notin> set (map fst (example_parser ''a=1, b=2; Max-Age=1''))"
    by (simp add: example_parser_def)
  have v: "\<forall>kc \<in> set (example_parser ''a=1, b=2; Max-Age=1'').
             valid_unexpired example_Date_of_String example_toISOString example_Date_parse 1000 2000 (snd kc)"
    by (simp add: example_parser_def valid_unexpired_def cookie_expiry_def time_clip_def
        example_toISOString_def example_Date_parse_def)
  have g: "getSetCookie example_parser example_Date_of_String example_toISOString 1000 ''a=1, b=2; Max-Age=1'' (Some (JsonText (JObj [])))
     = Inr (JsonText (JObj [(''a'', JObj [(''value'', JStr ''1''), (''expires'', JNull)]),
                            (''b'', JObj [(''value'', JStr ''2''), (''expires'', JStr ''1970-01-01T00:00:02.000Z'')])]))"
    by code_simp
  have l: "assign_all [] (example_parser ''a=1, b=2; Max-Age=1'') = example_parser ''a=1, b=2; Max-Age=1''"
    by code_simp
  from round_trip [of example_parser "''a=1, b=2; Max-Age=1''" example_Date_of_String example_toISOString
      example_Date_parse 1000 2000, OF d np v, THEN conjunct1] g l
  show ?thesis by (auto simp: example_parser_def)
qed

text \<open>
  Claim C2. The claim: for any \<open>Set-Cookie\<close> header with \<open>N\<close> distinct cookie names,
  none expired, \<open>getCookie(getSetCookie(header, "{}"))\<close> yields a header with exactly
  those \<open>N\<close> \<open>name=value\<close> pairs. The code stores every parsed cookie under its name
  and prints every unexpired entry, which is the round trip, but it fails on three
  headers with one cookie each, at time \<open>1000\<close>. With \<open>Max-Age=10000000000000\<close> the
  expiry is beyond the range of dates, and with an \<open>Expires\<close> that the parser reads
  as an invalid date the expiry is invalid: \<open>expires ? expires.toISOString() : null\<close>
  tests only for \<open>null\<close>, so \<open>toISOString\<close> throws a \<open>RangeError\<close> and there is
  no jar and no header. A cookie called \<open>__proto__\<close> is assigned with
  \<open>toSetCookie[key] = ...\<close>, which sets the prototype of the record: the jar is
  \<open>{}\<close> and the header is empty, where the claim has \<open>__proto__=x\<close>.
\<close>

theorem round_trip_fails:
  "map fst (example_parser ''a=b; Max-Age=10000000000000'') = [''a'']
   \<and> map fst (example_parser ''a=b; Expires=garbage'') = [''a'']
   \<and> map fst (example_parser ''__proto__=x'') = [''__proto__'']
   \<and> getSetCookie example_parser example_Date_of_String example_toISOString 1000 ''a=b; Expires=garbage''
     (Some (JsonText (JObj []))) = Inl RangeError
   \<and> getSetCookie example_parser example_Date_of_String example_toISOString 1000 ''a=b; Max-Age=10000000000000''
     (Some (JsonText (JObj []))) = Inl RangeError
   \<and> getSetCookie example_parser example_Date_of_String example_toISOString 1000 ''__proto__=x''
     (Some (JsonText (JObj []))) = Inr (JsonText (JObj []))
   \<and> getCookie example_Date_parse 1000 (JsonText (JObj [])) = Inr []"
  by code_simp

section \<open>Well-formed jars\<close>

lemma is_stored_entry_stored_json: "is_stored_entry (stored_json c)"
  by (simp add: stored_json_def split: option.splits)

lemma stored_entry_is_stored: "stored_entry reparse toISO now c = Inr e \<Longrightarrow> is_stored_entry e"
  by (auto simp: stored_entry_def split: option.splits js_date.splits)

lemma set_obj_insert: "set (obj_insert k v B) = insert (k, v) (set B)"
proof -
  have "set_mset (mset (obj_insert k v B)) = set_mset (add_mset (k, v) (mset B))"
    by (simp only: mset_obj_insert)
  then show ?thesis by simp
qed

lemma set_update_in_place:
  "set (map (\<lambda>(k', v'). if k' = k then (k', v) else (k', v')) B) \<subseteq> insert (k, v) (set B)"
  by (induction B) auto

lemma set_obj_set: "set (obj_set k v B) \<subseteq> insert (k, v) (set B)"
  using set_update_in_place [of k v B] by (simp add: obj_set_def set_obj_insert)

lemma values_obj_set:
  "Q v \<Longrightarrow> \<forall>kv \<in> set B. Q (snd kv) \<Longrightarrow> \<forall>kv \<in> set (obj_set k v B). Q (snd kv)"
  using set_obj_set [of k v B] by auto

lemma values_assign_all:
  "\<forall>kv \<in> set T. Q (snd kv) \<Longrightarrow> \<forall>kv \<in> set B. Q (snd kv)
     \<Longrightarrow> \<forall>kv \<in> set (assign_all B T). Q (snd kv)"
  unfolding assign_all_def
proof (induction T arbitrary: B)
  case Nil
  then show ?case by simp
next
  case (Cons a T)
  have "\<forall>kv \<in> set (obj_set (fst a) (snd a) B). Q (snd kv)"
    using values_obj_set [of Q "snd a" B "fst a"] Cons.prems by simp
  then show ?case using Cons.IH [of "obj_set (fst a) (snd a) B"] Cons.prems by simp
qed

lemma values_forEach:
  "forEach_parsed reparse toISO now kcs acc = Inr T \<Longrightarrow> \<forall>kv \<in> set acc. is_stored_entry (snd kv)
     \<Longrightarrow> \<forall>kv \<in> set T. is_stored_entry (snd kv)"
proof (induction kcs arbitrary: acc)
  case Nil
  then show ?case by simp
next
  case (Cons a kcs)
  obtain k c where a: "a = (k, c)" by (cases a)
  from Cons.prems(1) a obtain e where e: "stored_entry reparse toISO now c = Inr e"
    and r: "forEach_parsed reparse toISO now kcs (obj_assign k e acc) = Inr T"
    by (auto split: sum.splits)
  have "\<forall>kv \<in> set (obj_assign k e acc). is_stored_entry (snd kv)"
    using values_obj_set [of is_stored_entry e acc k] stored_entry_is_stored [OF e] Cons.prems(2)
    by (simp add: obj_assign_def)
  from Cons.IH [OF r this] show ?case .
qed

lemma filter_entries_returns:
  "\<forall>kv \<in> set kvs. snd kv \<noteq> JNull \<Longrightarrow> \<exists>kept. filter_entries Date_parse now kvs = Inr kept"
proof (induction kvs)
  case Nil
  then show ?case by simp
next
  case (Cons a kvs)
  then obtain kept where "filter_entries Date_parse now kvs = Inr kept" by auto
  then show ?case using Cons.prems by (cases a) (simp add: keep_entry_def)
qed

lemma stored_entry_not_null: "is_stored_entry v \<Longrightarrow> v \<noteq> JNull"
  by auto

lemma simple_prev_values:
  assumes "prev = None \<or> prev = Some EmptyText \<or> prev = Some MalformedText
           \<or> (\<exists>jar. prev = Some (JsonText (record_json jar)))"
    and "\<forall>kv \<in> set T. is_stored_entry (snd kv)"
  shows "\<forall>kv \<in> set (merge_prev prev T). is_stored_entry (snd kv)"
proof -
  consider "merge_prev prev T = T" | jar where "prev = Some (JsonText (record_json jar))"
    using assms(1) by (auto simp: merge_prev_def text_truthy_def)
  then show ?thesis
  proof cases
    case 1
    then show ?thesis using assms(2) by simp
  next
    case 2
    have "\<forall>kv \<in> set (map (\<lambda>kc. (fst kc, stored_json (snd kc))) jar @ T). is_stored_entry (snd kv)"
      using assms(2) by (auto simp: is_stored_entry_stored_json)
    then have "\<forall>kv \<in> set (assign_all [] (map (\<lambda>kc. (fst kc, stored_json (snd kc))) jar @ T)).
                 is_stored_entry (snd kv)"
      by (intro values_assign_all) simp_all
    then show ?thesis
      using 2 by (simp add: merge_prev_def text_truthy_def spread2_def record_json_def)
  qed
qed

text \<open>
  Claim C10, as amended. Whatever the header and the previous jar, a string that
  \<open>getSetCookie\<close> returns parses as a JSON object, so \<open>getCookie\<close> does not take
  its malformed-JSON branch on it; and the literal \<open>'{}'\<close> parses as the empty
  object. When the previous jar is absent, empty, malformed or a record of stored
  cookies, every entry of the returned object is a \<open>{value, expires}\<close> entry and
  \<open>getCookie\<close> returns a header for it.
\<close>

theorem getSetCookie_well_formed:
  "(getSetCookie P reparse toISO now h prev = Inr r \<longrightarrow>
     (\<exists>M. r = JsonText (JObj M) \<and> JSON_parse r = Some (JObj M)
        \<and> ((prev = None \<or> prev = Some EmptyText \<or> prev = Some MalformedText
             \<or> (\<exists>jar. prev = Some (JsonText (record_json jar))))
            \<longrightarrow> list_all (\<lambda>kv. is_stored_entry (snd kv)) M
                \<and> (\<exists>s. getCookie Date_parse later r = Inr s))))
   \<and> JSON_parse (JsonText (JObj [])) = Some (JObj [])"
proof (intro conjI impI)
  assume g: "getSetCookie P reparse toISO now h prev = Inr r"
  then obtain T where T: "forEach_parsed reparse toISO now (P h) [] = Inr T"
    and r: "r = JsonText (JObj (merge_prev prev T))"
    by (auto simp: getSetCookie_def JSON_stringify_def split: sum.splits)
  have vT: "\<forall>kv \<in> set T. is_stored_entry (snd kv)"
    using values_forEach [OF T] by simp
  have typed: "list_all (\<lambda>kv. is_stored_entry (snd kv)) (merge_prev prev T)
               \<and> (\<exists>s. getCookie Date_parse later r = Inr s)"
    if simple: "prev = None \<or> prev = Some EmptyText \<or> prev = Some MalformedText
           \<or> (\<exists>jar. prev = Some (JsonText (record_json jar)))"
  proof -
    have v: "\<forall>kv \<in> set (merge_prev prev T). is_stored_entry (snd kv)"
      using simple_prev_values [OF simple vT] .
    then have "\<forall>kv \<in> set (merge_prev prev T). snd kv \<noteq> JNull"
      using stored_entry_not_null by blast
    from filter_entries_returns [OF this, of Date_parse later]
    have "\<exists>s. getCookie Date_parse later r = Inr s"
      using r by (auto simp: getCookie_def Object_entries_def)
    with v show ?thesis by (simp add: list_all_iff)
  qed
  show "\<exists>M. r = JsonText (JObj M) \<and> JSON_parse r = Some (JObj M)
        \<and> ((prev = None \<or> prev = Some EmptyText \<or> prev = Some MalformedText
             \<or> (\<exists>jar. prev = Some (JsonText (record_json jar))))
            \<longrightarrow> list_all (\<lambda>kv. is_stored_entry (snd kv)) M
                \<and> (\<exists>s. getCookie Date_parse later r = Inr s))"
    using r typed by (intro exI [of _ "merge_prev prev T"]) simp
next
  show "JSON_parse (JsonText (JObj [])) = Some (JObj [])" by simp
qed

text \<open>A typed previous jar with a session token, and the header \<open>a=b; Max-Age=1\<close>.\<close>

theorem getSetCookie_well_formed_witness:
  "getSetCookie example_parser example_Date_of_String example_toISOString 1000 ''a=b; Max-Age=1''
     (Some (JsonText (record_json jar_t1)))
   = Inr (JsonText (JObj
       [(''better-auth.session_token'',
           JObj [(''value'', JStr ''t1''), (''expires'', JStr ''1970-01-01T00:00:01.000Z'')]),
        (''a'', JObj [(''value'', JStr ''b''), (''expires'', JStr ''1970-01-01T00:00:02.000Z'')])]))
   \<and> (\<exists>M. JSON_parse (JsonText (JObj
       [(''better-auth.session_token'',
           JObj [(''value'', JStr ''t1''), (''expires'', JStr ''1970-01-01T00:00:01.000Z'')]),
        (''a'', JObj [(''value'', JStr ''b''), (''expires'', JStr ''1970-01-01T00:00:02.000Z'')])]))
          = Some (JObj M)
        \<and> list_all (\<lambda>kv. is_stored_entry (snd kv)) M)"
proof -
  have g: "getSetCookie example_parser example_Date_of_String example_toISOString 1000 ''a=b; Max-Age=1''
     (Some (JsonText (record_json jar_t1)))
   = Inr (JsonText (JObj
       [(''better-auth.session_token'',
           JObj [(''value'', JStr ''t1''), (''expires'', JStr ''1970-01-01T00:00:01.000Z'')]),
        (''a'', JObj [(''value'', JStr ''b''), (''expires'', JStr ''1970-01-01T00:00:02.000Z'')])]))"
    by code_simp
  have typed: "(Some (JsonText (record_json jar_t1)) = None
      \<or> Some (JsonText (record_json jar_t1)) = Some EmptyText
      \<or> Some (JsonText (record_json jar_t1)) = Some MalformedText
      \<or> (\<exists>jar. Some (JsonText (record_json jar_t1)) = Some (JsonText (record_json jar))))"
    by blast
  from getSetCookie_well_formed [of example_parser example_Date_of_String example_toISOString 1000
      "''a=b; Max-Age=1''" "Some (JsonText (record_json jar_t1))" _ example_Date_parse 2000,
      THEN conjunct1, THEN mp, OF g]
  obtain M where M: "JSON_parse (JsonText (JObj
       [(''better-auth.session_token'',
           JObj [(''value'', JStr ''t1''), (''expires'', JStr ''1970-01-01T00:00:01.000Z'')]),
        (''a'', JObj [(''value'', JStr ''b''), (''expires'', JStr ''1970-01-01T00:00:02.000Z'')])]))
          = Some (JObj M)"
    and rest: "(Some (JsonText (record_json jar_t1)) = None
      \<or> Some (JsonText (record_json jar_t1)) = Some EmptyText
      \<or> Some (JsonText (record_json jar_t1)) = Some MalformedText
      \<or> (\<exists>jar. Some (JsonText (record_json jar_t1)) = Some (JsonText (record_json jar))))
     \<longrightarrow> list_all (\<lambda>kv. is_stored_entry (snd kv)) M
         \<and> (\<exists>s. getCookie example_Date_parse 2000 (JsonText (JObj
       [(''better-auth.session_token'',
           JObj [(''value'', JStr ''t1''), (''expires'', JStr ''1970-01-01T00:00:01.000Z'')]),
        (''a'', JObj [(''value'', JStr ''b''), (''expires'', JStr ''1970-01-01T00:00:02.000Z'')])]))
              = Inr s)"
    by blast
  from rest typed have "list_all (\<lambda>kv. is_stored_entry (snd kv)) M" by blast
  with g M show ?thesis by blast
qed

text \<open>
  The claim as stated fails for a previous jar that is JSON of another shape: the
  entries of the previous object are copied as they are. With the empty header, the
  previous jar \<open>{"a":5}\<close> comes back unchanged, and \<open>5\<close> is not a \<open>{value, expires}\<close>
  entry; \<open>getCookie\<close> prints it as \<open>a=undefined\<close>. The previous jar \<open>{"a":null}\<close>
  comes back unchanged too, and \<open>getCookie\<close> throws a \<open>TypeError\<close> on it.
\<close>

theorem getSetCookie_keeps_ill_typed_entries:
  "getSetCookie example_parser example_Date_of_String example_toISOString 1000 ''''
     (Some (JsonText (JObj [(''a'', JNum 5)]))) = Inr (JsonText (JObj [(''a'', JNum 5)]))
   \<and> \<not> is_stored_entry (JNum 5)
   \<and> getCookie example_Date_parse 1000 (JsonText (JObj [(''a'', JNum 5)])) = Inr ''a=undefined''
   \<and> getSetCookie example_parser example_Date_of_String example_toISOString 1000 ''''
     (Some (JsonText (JObj [(''a'', JNull)]))) = Inr (JsonText (JObj [(''a'', JNull)]))
   \<and> getCookie example_Date_parse 1000 (JsonText (JObj [(''a'', JNull)])) = Inl TypeError"
  by code_simp

section \<open>Properties of the OAuth redirect\<close>

lemma first_candidate_truthy: "first_candidate parsed names = Some v \<Longrightarrow> truthy (Some v)"
  by (induction names) (auto split: if_splits)

lemma oauth_scan_truthy: "oauth_scan parsed ps = Some v \<Longrightarrow> truthy (Some v)"
proof (induction ps)
  case Nil
  then show ?case by simp
next
  case (Cons p ps)
  show ?case
  proof (cases "first_candidate parsed
             [SECURE_COOKIE_PREFIX @ p @ ''.oauth_state'', p @ ''.oauth_state'']")
    case None
    with Cons show ?thesis by (simp del: first_candidate.simps)
  next
    case (Some u)
    with Cons.prems have "u = v" by (simp del: first_candidate.simps)
    with Some show ?thesis using first_candidate_truthy by blast
  qed
qed

lemma getOAuthStateValue_truthy:
  "getOAuthStateValue cookieJson cp = Some v \<Longrightarrow> truthy (Some v)"
  by (auto simp: getOAuthStateValue_def split: option.splits if_splits dest: oauth_scan_truthy)

lemma proxyURL_eq:
  assumes "ctx_baseURL ctx = Some baseURL"
    and "js_get (ctx_data ctx) ''url'' = Some (JStr signInURL)"
  shows "proxyURL opts ctx w =
     baseURL @ ''/capacitor-authorization-proxy?authorizationURL='' @ form_encode signInURL
       @ (case getOAuthStateValue (prefs w (normalizeCookieName (cookieName opts)))
                 (client_cookiePrefix opts) of
            None \<Rightarrow> []
          | Some v \<Rightarrow> ''&oauthState='' @ form_encode (template (Some v)))"
proof -
  have nn: "ctx_data ctx \<noteq> JNull" using assms(2) by auto
  then have u: "opt_get (Some (ctx_data ctx)) ''url'' = Some (JStr signInURL)"
    using assms(2) by (cases "ctx_data ctx") simp_all
  have enc: "form_encode ''authorizationURL'' = ''authorizationURL''"
            "form_encode ''oauthState'' = ''oauthState''"
    by code_simp+
  show ?thesis
  proof (cases "getOAuthStateValue (prefs w (normalizeCookieName (cookieName opts)))
                 (client_cookiePrefix opts)")
    case None
    then show ?thesis
      using assms(1) u enc by (simp add: proxyURL_def URLSearchParams_toString_def template_def)
  next
    case (Some v)
    then have "truthy (Some v)" by (rule getOAuthStateValue_truthy)
    then show ?thesis
      using Some assms(1) u enc
      by (simp add: proxyURL_def URLSearchParams_toString_def template_def)
  qed
qed

lemma first_candidate_record:
  "first_candidate (record_json jar) [n1, n2] =
     (case Option.bind (map_of jar n1) nonempty_value of
        Some v \<Rightarrow> Some v
      | None \<Rightarrow> Option.bind (map_of jar n2) nonempty_value)"
  by (cases "map_of jar n1"; cases "map_of jar n2")
     (simp_all add: value_of_record nonempty_value_def)

lemma truthy_record: "truthy (Some (record_json jar))"
  by (simp add: record_json_def)

lemma oauth_scan_single:
  "oauth_scan parsed [p] =
     first_candidate parsed [SECURE_COOKIE_PREFIX @ p @ ''.oauth_state'', p @ ''.oauth_state'']"
  by (cases "first_candidate parsed
               [SECURE_COOKIE_PREFIX @ p @ ''.oauth_state'', p @ ''.oauth_state'']")
     (simp_all del: first_candidate.simps)

lemma getOAuthStateValue_record:
  "getOAuthStateValue (Some (JsonText (record_json jar))) (Single p) =
     (case Option.bind (map_of jar (''__Secure-'' @ p @ ''.oauth_state'')) nonempty_value of
        Some v \<Rightarrow> Some v
      | None \<Rightarrow> Option.bind (map_of jar (p @ ''.oauth_state'')) nonempty_value)"
proof -
  have "getOAuthStateValue (Some (JsonText (record_json jar))) (Single p)
          = oauth_scan (record_json jar) [p]"
    by (simp add: getOAuthStateValue_def text_truthy_def truthy_record del: oauth_scan.simps)
  then show ?thesis
    by (simp only: oauth_scan_single first_candidate_record SECURE_COOKIE_PREFIX_def)
qed

lemma oauth_scan_record:
  "oauth_scan (record_json jar) ps = first_nonempty jar (oauth_state_names ps)"
proof (induction ps)
  case Nil
  then show ?case by (simp add: oauth_state_names_def)
next
  case (Cons p ps)
  have n: "oauth_state_names (p # ps)
             = (''__Secure-'' @ p @ ''.oauth_state'') # (p @ ''.oauth_state'') # oauth_state_names ps"
    by (simp add: oauth_state_names_def)
  have "oauth_scan (record_json jar) (p # ps) =
          (case first_candidate (record_json jar)
                  [''__Secure-'' @ p @ ''.oauth_state'', p @ ''.oauth_state''] of
             Some v \<Rightarrow> Some v
           | None \<Rightarrow> oauth_scan (record_json jar) ps)"
    by (simp add: SECURE_COOKIE_PREFIX_def del: first_candidate.simps)
  then show ?case
    by (simp only: first_candidate_record Cons.IH n first_nonempty.simps split: option.splits)
       (auto split: option.splits)
qed

lemma getOAuthStateValue_names:
  "getOAuthStateValue (Some (JsonText (record_json jar))) cp
     = first_nonempty jar (oauth_state_names (prefixes_of cp))"
proof -
  have "getOAuthStateValue (Some (JsonText (record_json jar))) cp
          = oauth_scan (record_json jar) (prefixes_of cp)"
    by (simp add: getOAuthStateValue_def text_truthy_def truthy_record del: oauth_scan.simps)
  then show ?thesis by (simp only: oauth_scan_record)
qed

text \<open>The serializer on a letter outside ASCII, on a space and on a reserved
  character.\<close>

lemma form_encode_examples:
  "form_encode [CHR 0xE9] = ''%C3%A9'' \<and> form_encode ''a b&c'' = ''a+b%26c''"
  by code_simp

text \<open>With the prefixes \<open>a\<close> and \<open>b\<close>, the unprefixed state cookie of \<open>a\<close> is
  found before the secure-prefixed one of \<open>b\<close>.\<close>

lemma getOAuthStateValue_two_prefixes:
  "getOAuthStateValue
     (Some (JsonText (record_json
        [(''a.oauth_state'', \<lparr>sc_value = ''plain-a'', sc_expires = None\<rparr>),
         (''__Secure-b.oauth_state'', \<lparr>sc_value = ''secure-b'', sc_expires = None\<rparr>)])))
     (Multiple [''a'', ''b''])
   = Some (JStr ''plain-a'')"
  by code_simp

text \<open>
  Claim C6, as amended. On a native platform, when the response data carry a truthy
  \<open>redirect\<close> and the authorization \<open>url\<close>, the request URL contains \<open>/sign-in\<close>
  or \<open>/link-social\<close>, a scheme is configured, and the request body is JSON text that
  does not contain \<open>idToken\<close> (these are \<open>redirect_requested\<close> and the body
  premise), and the steps that come first in \<open>onSuccess\<close> (the handling of the
  \<open>set-auth-token\<close> and \<open>set-cookie\<close> response headers and the caching of the
  session) returned, leaving the state \<open>w1\<close>, then \<open>onSuccess\<close> opens exactly
  \<open><baseURL>/capacitor-authorization-proxy?authorizationURL=<encoded url>\<close>, followed
  by \<open>&oauthState=<encoded value>\<close> when the jar stored in \<open>w1\<close> holds an OAuth
  state. The encoding is that of \<open>URLSearchParams\<close>.

  In a stored record the OAuth state is the first non-empty value under the names
  \<open>__Secure-<prefix>.oauth_state\<close>, \<open><prefix>.oauth_state\<close>, taken for each
  configured prefix in turn: for one prefix the secure-prefixed entry is preferred, and
  with several prefixes both names of an earlier prefix come before those of a later
  one. The URL \<open>https://idp/auth\<close> is encoded as \<open>https%3A%2F%2Fidp%2Fauth\<close>.
\<close>

theorem onSuccess_opens_proxy:
  assumes native: "h_native H"
    and before: "and_then (and_then (handle_auth_token H now1 opts ctx w)
                    (handle_set_cookie H now2 opts ctx)) (cache_session opts ctx) = Returned w1"
    and req: "redirect_requested opts ctx"
    and body: "ctx_body ctx = Some b \<and> h_JSON_parse H b = Some parsedBody"
    and base: "ctx_baseURL ctx = Some baseURL"
    and url: "js_get (ctx_data ctx) ''url'' = Some (JStr signInURL)"
  shows "(\<exists>w'. onSuccess H now1 now2 opts ctx w = Returned w'
            \<and> opened w' = opened w1 @
                 [baseURL @ ''/capacitor-authorization-proxy?authorizationURL=''
                    @ form_encode signInURL
                    @ (case getOAuthStateValue (prefs w1 (normalizeCookieName (cookieName opts)))
                              (client_cookiePrefix opts) of
                         None \<Rightarrow> []
                       | Some v \<Rightarrow> ''&oauthState='' @ form_encode (template (Some v)))])
         \<and> getOAuthStateValue (Some (JsonText (record_json jar))) (Single p) =
             (case Option.bind (map_of jar (''__Secure-'' @ p @ ''.oauth_state'')) nonempty_value of
                Some v \<Rightarrow> Some v
              | None \<Rightarrow> Option.bind (map_of jar (p @ ''.oauth_state'')) nonempty_value)
         \<and> form_encode ''https://idp/auth'' = ''https%3A%2F%2Fidp%2Fauth''
         \<and> getOAuthStateValue (Some (JsonText (record_json jar))) cp
             = first_nonempty jar (oauth_state_names (prefixes_of cp))"
proof (intro conjI)
  have "onSuccess H now1 now2 opts ctx w = oauth_redirect H opts ctx w1"
    using native before by (simp add: onSuccess_def and_then_def)
  also have "\<dots> = Returned (w1\<lparr>opened := opened w1 @ [proxyURL opts ctx w1],
                         listeners := listeners w1 @ [opt_get (Some parsedBody) ''callbackURL'']\<rparr>)"
    using req body by (simp add: oauth_redirect_def)
  finally show "\<exists>w'. onSuccess H now1 now2 opts ctx w = Returned w'
            \<and> opened w' = opened w1 @
                 [baseURL @ ''/capacitor-authorization-proxy?authorizationURL=''
                    @ form_encode signInURL
                    @ (case getOAuthStateValue (prefs w1 (normalizeCookieName (cookieName opts)))
                              (client_cookiePrefix opts) of
                         None \<Rightarrow> []
                       | Some v \<Rightarrow> ''&oauthState='' @ form_encode (template (Some v)))]"
    using proxyURL_eq [OF base url, of opts w1] by simp
next
  show "getOAuthStateValue (Some (JsonText (record_json jar))) (Single p) =
             (case Option.bind (map_of jar (''__Secure-'' @ p @ ''.oauth_state'')) nonempty_value of
                Some v \<Rightarrow> Some v
              | None \<Rightarrow> Option.bind (map_of jar (p @ ''.oauth_state'')) nonempty_value)"
    by (rule getOAuthStateValue_record)
next
  show "form_encode ''https://idp/auth'' = ''https%3A%2F%2Fidp%2Fauth''"
    by code_simp
next
  show "getOAuthStateValue (Some (JsonText (record_json jar))) cp
          = first_nonempty jar (oauth_state_names (prefixes_of cp))"
    by (rule getOAuthStateValue_names)
qed

text \<open>The example sign-in response, with a jar that holds both OAuth state cookies.\<close>

theorem onSuccess_opens_proxy_witness:
  "has_returned (onSuccess example_host 1000 1000 example_opts (example_redirect example_body)
     (example_world jar_oauth))
   \<and> opened (outcome_state (onSuccess example_host 1000 1000 example_opts
        (example_redirect example_body) (example_world jar_oauth)))
     = [''https://api.example.com/api/auth/capacitor-authorization-proxy?authorizationURL=https%3A%2F%2Fidp%2Fauth&oauthState=secure-state'']"
proof -
  have native: "h_native example_host" by (simp add: example_host_def)
  have before: "and_then (and_then
        (handle_auth_token example_host 1000 example_opts (example_redirect example_body)
           (example_world jar_oauth))
        (handle_set_cookie example_host 1000 example_opts (example_redirect example_body)))
        (cache_session example_opts (example_redirect example_body))
      = Returned (example_world jar_oauth)"
  proof -
    have "\<not> includes_str (ctx_url (example_redirect example_body)) ''/get-session''"
      by code_simp
    then show ?thesis
      by (simp add: handle_auth_token_def handle_set_cookie_def cache_session_def and_then_def
          example_redirect_def)
  qed
  have req: "redirect_requested example_opts (example_redirect example_body)"
    by code_simp
  have body: "ctx_body (example_redirect example_body) = Some example_body
      \<and> h_JSON_parse example_host example_body
          = Some (JObj [(''provider'', JStr ''google''),
                        (''callbackURL'', JStr ''myapp://auth/callback'')])"
    by (simp add: example_redirect_def example_host_def example_body_parse_def example_body_def)
  have base: "ctx_baseURL (example_redirect example_body) = Some ''https://api.example.com/api/auth''"
    by (simp add: example_redirect_def)
  have url: "js_get (ctx_data (example_redirect example_body)) ''url'' = Some (JStr ''https://idp/auth'')"
    by (simp add: example_redirect_def)
  have state: "getOAuthStateValue
       (prefs (example_world jar_oauth) (normalizeCookieName (cookieName example_opts)))
       (client_cookiePrefix example_opts) = Some (JStr ''secure-state'')"
    by code_simp
  have enc: "form_encode ''https://idp/auth'' = ''https%3A%2F%2Fidp%2Fauth''"
            "form_encode ''secure-state'' = ''secure-state''"
    by code_simp+
  from onSuccess_opens_proxy [OF native before req body base url, THEN conjunct1]
  obtain w' where w': "onSuccess example_host 1000 1000 example_opts (example_redirect example_body)
        (example_world jar_oauth) = Returned w'"
    and o: "opened w' = opened (example_world jar_oauth) @
       [''https://api.example.com/api/auth'' @ ''/capacitor-authorization-proxy?authorizationURL=''
          @ form_encode ''https://idp/auth''
          @ (case getOAuthStateValue
                    (prefs (example_world jar_oauth) (normalizeCookieName (cookieName example_opts)))
                    (client_cookiePrefix example_opts) of
               None \<Rightarrow> []
             | Some v \<Rightarrow> ''&oauthState='' @ form_encode (template (Some v)))]"
    by blast
  show ?thesis
    using w' o state enc by (simp add: example_world_def template_def)
qed

text \<open>
  The claim as stated fails for a request whose body contains \<open>idToken\<close>: the
  response carries \<open>redirect: true\<close> and the authorization URL, the request is a
  sign-in and the scheme is configured, and the hook returns without opening anything.
\<close>

theorem onSuccess_skips_idToken_request:
  "h_native example_host
   \<and> truthy (js_get (ctx_data (example_redirect example_idToken_body)) ''redirect'')
   \<and> js_get (ctx_data (example_redirect example_idToken_body)) ''url'' = Some (JStr ''https://idp/auth'')
   \<and> includes_str (ctx_url (example_redirect example_idToken_body)) ''/sign-in''
   \<and> client_scheme example_opts = Some ''myapp''
   \<and> has_returned (onSuccess example_host 1000 1000 example_opts
        (example_redirect example_idToken_body) (example_world jar_oauth))
   \<and> opened (outcome_state (onSuccess example_host 1000 1000 example_opts
        (example_redirect example_idToken_body) (example_world jar_oauth))) = []"
  by code_simp

section \<open>Properties of sign-out\<close>

text \<open>
  Claim C7. On a native platform, when the request URL contains \<open>/sign-out\<close>, the
  state that the pre-request hook \<open>init\<close> leaves when it returns the request has the
  jar set to \<open>'{}'\<close>, which parses as the empty object, the session-data cache set to
  \<open>'{}'\<close>, and the session atom of the client store, when there is one, with
  \<open>data: null\<close>, \<open>error: null\<close> and \<open>isPending: false\<close> and its other fields
  unchanged; the URL is returned as it was given.
\<close>

theorem init_sign_out:
  assumes "h_native H" and "includes_str url ''/sign-out''"
  shows "prefs (fst (init H opts url options w)) (normalizeCookieName (cookieName opts))
           = Some (JsonText (JObj []))
         \<and> JSON_parse (JsonText (JObj [])) = Some (JObj [])
         \<and> prefs (fst (init H opts url options w)) (normalizeCookieName (localCacheName opts))
           = Some (JsonText (JObj []))
         \<and> (\<forall>st s. store w = Some st \<and> session st = Some s
              \<longrightarrow> store (fst (init H opts url options w))
                    = Some (st\<lparr>session :=
                        Some (s\<lparr>s_data := JNull, s_error := JNull, s_isPending := False\<rparr>)\<rparr>))
         \<and> fst (snd (init H opts url options w)) = url"
  using assms
  by (auto simp: init_def sign_out_def prefs_set_def clear_session_def Let_def
      split: option.splits)

text \<open>A sign-out request in a state with a jar and a pending session.\<close>

theorem init_sign_out_witness:
  "prefs (fst (init example_host example_opts example_sign_out_url None (example_world jar_both)))
     ''better-auth_cookie'' = Some (JsonText (JObj []))
   \<and> prefs (fst (init example_host example_opts example_sign_out_url None (example_world jar_both)))
     ''better-auth_session_data'' = Some (JsonText (JObj []))
   \<and> store (fst (init example_host example_opts example_sign_out_url None (example_world jar_both)))
     = Some \<lparr>notified = [],
             session = Some \<lparr>s_data = JNull, s_error = JNull, s_isPending = False,
                             s_other = [(''isRefetching'', JBool False)]\<rparr>\<rparr>"
proof -
  have native: "h_native example_host" by (simp add: example_host_def)
  have out: "includes_str example_sign_out_url ''/sign-out''" by code_simp
  have k1: "normalizeCookieName (cookieName example_opts) = ''better-auth_cookie''" by code_simp
  have k2: "normalizeCookieName (localCacheName example_opts) = ''better-auth_session_data''"
    by code_simp
  have st: "store (example_world jar_both) = Some \<lparr>notified = [], session = Some example_session\<rparr>
            \<and> session \<lparr>notified = [], session = Some example_session\<rparr> = Some example_session"
    by (simp add: example_world_def)
  note t = init_sign_out [OF native out, of example_opts None "example_world jar_both"]
  note t4 = t [THEN conjunct2, THEN conjunct2, THEN conjunct2, THEN conjunct1, THEN spec, THEN spec,
      THEN mp, OF st]
  show ?thesis
    using t [THEN conjunct1] t [THEN conjunct2, THEN conjunct2, THEN conjunct1] t4
    by (simp add: k1 k2 example_session_def)
qed

end
